theory Spec2Isabelle
  imports Main "HOL-Library.Multiset"
begin

section \<open>Text: lines of a document\<close>

text \<open>
  A Python \<open>str\<close> is modelled as a \<open>string\<close> (a list of 8-bit characters: text in the
  Latin-1 range). \<open>code.split('\n')\<close> and \<open>'\n'.join(lines)\<close> are the two conversions
  between the text of a document and its sequence of lines.
\<close>

definition newline :: char where
  "newline = CHR 0x0A"

text \<open>\<open>s.split('\n')\<close>: never empty; the empty text has the one line \<open>''\<close>.\<close>

fun split_lines :: "string \<Rightarrow> string list" where
  "split_lines [] = [[]]"
| "split_lines (c # cs) =
     (if c = newline then [] # split_lines cs
      else (case split_lines cs of
              [] \<Rightarrow> [[c]]
            | l # ls \<Rightarrow> (c # l) # ls))"

text \<open>\<open>'\n'.join(lines)\<close>.\<close>

fun join_lines :: "string list \<Rightarrow> string" where
  "join_lines [] = []"
| "join_lines [l] = l"
| "join_lines (l # m # ls) = l @ newline # join_lines (m # ls)"

section \<open>Findings\<close>

datatype bug_category =
  SyntaxError | LogicError | LogicWarning | StyleWarning | DeprecationWarning

text \<open>
  The dictionary that \<open>detect_bugs\<close> and \<open>python_ast_check\<close> build for one finding, with
  its keys \<open>'type'\<close>, \<open>'line'\<close>, \<open>'description'\<close>, \<open>'original'\<close> and \<open>'fix'\<close>. The
  findings of \<open>python_ast_check\<close> have no key \<open>'original'\<close>.
\<close>

record bug =
  bug_type :: bug_category
  bug_line :: int
  bug_description :: string
  bug_original :: "string option"
  bug_fix :: string

section \<open>Rectification\<close>

text \<open>\<open>CodeAnalyzer.rectify_bug\<close>: the new text and the replaced line, or the text
  unchanged and \<open>None\<close>.\<close>

definition rectify_bug :: "string \<Rightarrow> bug \<Rightarrow> string \<times> string option" where
  "rectify_bug code b =
     (let lines = split_lines code;
          line_idx = bug_line b - 1
      in if 0 \<le> line_idx \<and> line_idx < int (length lines)
         then (let original_line = lines ! nat line_idx
               in (join_lines (lines[nat line_idx := bug_fix b]), Some original_line))
         else (code, None))"

text \<open>
  \<open>sorted(xs, key=key, reverse=True)\<close>. CPython reverses the list, sorts it with its
  stable sort and reverses the result, so that elements with equal keys keep their
  original relative order.
\<close>

definition sorted_reverse :: "('a \<Rightarrow> int) \<Rightarrow> 'a list \<Rightarrow> 'a list" where
  "sorted_reverse key xs = rev (sort_key key (rev xs))"

text \<open>The loop \<open>for bug in bugs_sorted\<close> of \<open>apply_fixes\<close>, on the list \<open>lines\<close>.\<close>

fun apply_loop :: "bug list \<Rightarrow> string list \<Rightarrow> string list" where
  "apply_loop [] lines = lines"
| "apply_loop (b # bs) lines =
     (let line_idx = bug_line b - 1
      in apply_loop bs
           (if 0 \<le> line_idx \<and> line_idx < int (length lines)
            then lines[nat line_idx := bug_fix b]
            else lines))"

text \<open>\<open>CodeAnalyzer.apply_fixes\<close>.\<close>

definition apply_fixes :: "string \<Rightarrow> bug list \<Rightarrow> string" where
  "apply_fixes code bugs =
     (let lines = split_lines code;
          bugs_sorted = sorted_reverse bug_line bugs
      in join_lines (apply_loop bugs_sorted lines))"

text \<open>
  The line that a list of findings, read in the given order, leaves at index \<open>i\<close>: the fix
  of the last finding of the list for line \<open>i + 1\<close>, or the line as it was when no finding
  names it. This is the reading of the specification, to be compared with \<open>apply_loop\<close>.
\<close>

definition last_fix_wins :: "bug list \<Rightarrow> string list \<Rightarrow> nat \<Rightarrow> string" where
  "last_fix_wins bugs lines i =
     (case filter (\<lambda>b. bug_line b = int i + 1) bugs of
        [] \<Rightarrow> lines ! i
      | f # fs \<Rightarrow> bug_fix (last (f # fs)))"

section \<open>Regular expressions\<close>

text \<open>
  The rules of the catalog are Python regular expressions, matched with \<open>re.search\<close>.
  The patterns of the catalog use literal text, the classes \<open>\w\<close>, \<open>\s\<close>, \<open>\d\<close>, \<open>.\<close>
  and \<open>[^...]\<close>, the quantifiers \<open>*\<close>, \<open>+\<close> and \<open>+?\<close> on one class, capturing groups, a
  negative lookahead \<open>(?!...|...)\<close>, \<open>$\<close> and a back reference. A compiled pattern is
  the sequence of these items; \<open>Open n\<close> and \<open>Close n\<close> are the parentheses of group
  \<open>n\<close>.
\<close>

datatype cset = Word | Space | Digit | Dot | NotIn string

text \<open>The classes on the code points below 256, as \<open>re\<close> has them for \<open>str\<close> patterns.\<close>

definition is_space :: "char \<Rightarrow> bool" where
  "is_space c =
     (let n = (of_char c :: nat)
      in (9 \<le> n \<and> n \<le> 13) \<or> (28 \<le> n \<and> n \<le> 32) \<or> n = 133 \<or> n = 160)"

definition is_digit :: "char \<Rightarrow> bool" where
  "is_digit c = (let n = (of_char c :: nat) in 48 \<le> n \<and> n \<le> 57)"

definition is_word :: "char \<Rightarrow> bool" where
  "is_word c =
     (let n = (of_char c :: nat)
      in (48 \<le> n \<and> n \<le> 57) \<or> (65 \<le> n \<and> n \<le> 90) \<or> n = 95 \<or> (97 \<le> n \<and> n \<le> 122)
         \<or> n = 170 \<or> n = 178 \<or> n = 179 \<or> n = 181 \<or> n = 185 \<or> n = 186
         \<or> (188 \<le> n \<and> n \<le> 190) \<or> (192 \<le> n \<and> n \<le> 214) \<or> (216 \<le> n \<and> n \<le> 246)
         \<or> (248 \<le> n \<and> n \<le> 255))"

fun cset_match :: "cset \<Rightarrow> char \<Rightarrow> bool" where
  "cset_match Word c = is_word c"
| "cset_match Space c = is_space c"
| "cset_match Digit c = is_digit c"
| "cset_match Dot c = (c \<noteq> newline)"
| "cset_match (NotIn cs) c = (c \<notin> set cs)"

datatype item =
    Lit string
  | One cset
  | Star cset
  | Plus cset
  | StarLazy cset
  | PlusLazy cset
  | Open nat
  | Close nat
  | NegLook "item list list"
  | Eos
  | BackRef nat

type_synonym captures = "(nat \<times> string) list"

text \<open>
  The backtracking matcher: \<open>re_match items s opens caps\<close> matches the items at the start
  of the text \<open>s\<close>, the items that follow an item being its continuation. A greedy
  quantifier tries the longer match first, a lazy one the shorter; \<open>opens\<close> holds the text
  that was left where each group opened and \<open>caps\<close> the text of every closed group. The
  result is the captures of the first match in this order, or \<open>None\<close>.
\<close>

fun re_match :: "item list \<Rightarrow> string \<Rightarrow> captures \<Rightarrow> captures \<Rightarrow> captures option" where
  "re_match [] s opens caps = Some caps"
| "re_match (Lit l # r) s opens caps =
     (if take (length l) s = l then re_match r (drop (length l) s) opens caps else None)"
| "re_match (One c # r) s opens caps =
     (case s of
        [] \<Rightarrow> None
      | x # xs \<Rightarrow> if cset_match c x then re_match r xs opens caps else None)"
| "re_match (Star c # r) s opens caps =
     (case s of
        [] \<Rightarrow> re_match r s opens caps
      | x # xs \<Rightarrow>
          if cset_match c x
          then (case re_match (Star c # r) xs opens caps of
                  Some m \<Rightarrow> Some m
                | None \<Rightarrow> re_match r s opens caps)
          else re_match r s opens caps)"
| "re_match (Plus c # r) s opens caps =
     (case s of
        [] \<Rightarrow> None
      | x # xs \<Rightarrow> if cset_match c x then re_match (Star c # r) xs opens caps else None)"
| "re_match (StarLazy c # r) s opens caps =
     (case re_match r s opens caps of
        Some m \<Rightarrow> Some m
      | None \<Rightarrow>
          (case s of
             [] \<Rightarrow> None
           | x # xs \<Rightarrow>
               if cset_match c x then re_match (StarLazy c # r) xs opens caps else None))"
| "re_match (PlusLazy c # r) s opens caps =
     (case s of
        [] \<Rightarrow> None
      | x # xs \<Rightarrow> if cset_match c x then re_match (StarLazy c # r) xs opens caps else None)"
| "re_match (Open n # r) s opens caps = re_match r s ((n, s) # opens) caps"
| "re_match (Close n # r) s opens caps =
     (case map_of opens n of
        None \<Rightarrow> None
      | Some s0 \<Rightarrow> re_match r s opens ((n, take (length s0 - length s) s0) # caps))"
| "re_match (NegLook alts # r) s opens caps =
     (if list_ex (\<lambda>alt. re_match alt s opens caps \<noteq> None) alts then None
      else re_match r s opens caps)"
| "re_match (Eos # r) s opens caps =
     (if s = [] \<or> s = [newline] then re_match r s opens caps else None)"
| "re_match (BackRef n # r) s opens caps =
     (case map_of caps n of
        None \<Rightarrow> None
      | Some g \<Rightarrow>
          if take (length g) s = g then re_match r (drop (length g) s) opens caps else None)"

text \<open>\<open>re.search\<close> tries every start position from the left, the end of the text included.\<close>

fun search_from :: "item list \<Rightarrow> string \<Rightarrow> captures option" where
  "search_from p [] = re_match p [] [] []"
| "search_from p (c # cs) =
     (case re_match p (c # cs) [] [] of
        Some caps \<Rightarrow> Some caps
      | None \<Rightarrow> search_from p cs)"

fun is_Open :: "item \<Rightarrow> bool" where
  "is_Open (Open n) = True"
| "is_Open _ = False"

text \<open>The number of groups of a pattern (no lookahead of the catalog holds a group).\<close>

definition ngroups :: "item list \<Rightarrow> nat" where
  "ngroups p = length (filter is_Open p)"

text \<open>
  \<open>re.search(pattern, line)\<close> followed by \<open>match.groups()\<close>: \<open>None\<close> when there is no
  match, else the texts of groups \<open>1 .. ngroups\<close> (\<open>None\<close> for a group that took no part).
\<close>

definition re_search :: "item list \<Rightarrow> string \<Rightarrow> string option list option" where
  "re_search p s =
     (case search_from p s of
        None \<Rightarrow> None
      | Some caps \<Rightarrow> Some (map (map_of caps) [1..<Suc (ngroups p)]))"

section \<open>Format strings\<close>

text \<open>
  \<open>template.format(*groups)\<close>, for the format strings of the catalog: literal text, the
  escapes \<open>{{\<close> and \<open>}}\<close>, and replacement fields \<open>{N}\<close> with a decimal index. A single
  \<open>{\<close> or \<open>}\<close> and a field that is not closed raise \<open>ValueError\<close>; an index beyond the
  arguments raises \<open>IndexError\<close>. Any other replacement field (a name, an attribute, a
  conversion, a format specification, automatic numbering) is outside this model:
  no template of the catalog has one.

  \<open>py_error\<close> holds the exceptions of the model: those of \<open>format\<close>, and those that
  \<open>ast.parse\<close> raises besides \<open>SyntaxError\<close> (the recursion limit, exhausted memory).
\<close>

datatype py_error = ValueError | IndexError | OutsideModel | RecursionError | MemoryError

fun digits_value :: "string \<Rightarrow> nat \<Rightarrow> nat" where
  "digits_value [] acc = acc"
| "digits_value (d # ds) acc = digits_value ds (10 * acc + (of_char d - 48))"

text \<open>\<open>str(g)\<close> for a group: the text, or \<open>'None'\<close>.\<close>

definition str_of :: "string option \<Rightarrow> string" where
  "str_of g = (case g of None \<Rightarrow> ''None'' | Some s \<Rightarrow> s)"

definition field_value :: "string \<Rightarrow> string option list \<Rightarrow> py_error + string" where
  "field_value name args =
     (if name \<noteq> [] \<and> list_all is_digit name
      then (let k = digits_value name 0
            in if k < length args then Inr (str_of (args ! k)) else Inl IndexError)
      else Inl OutsideModel)"

definition emit :: "string \<Rightarrow> py_error + string \<Rightarrow> py_error + string" where
  "emit s r = (case r of Inl e \<Rightarrow> Inl e | Inr t \<Rightarrow> Inr (s @ t))"

text \<open>\<open>fmt None\<close> reads literal text; \<open>fmt (Some name)\<close> is inside a replacement field
  whose name so far is \<open>name\<close>.\<close>

fun fmt :: "string option \<Rightarrow> string \<Rightarrow> string option list \<Rightarrow> py_error + string" where
  "fmt None [] args = Inr []"
| "fmt None (c # cs) args =
     (if c = CHR ''{'' then
        (case cs of
           [] \<Rightarrow> Inl ValueError
         | d # ds \<Rightarrow>
             if d = CHR ''{'' then emit ''{'' (fmt None ds args)
             else fmt (Some []) cs args)
      else if c = CHR ''}'' then
        (case cs of
           [] \<Rightarrow> Inl ValueError
         | d # ds \<Rightarrow>
             if d = CHR ''}'' then emit ''}'' (fmt None ds args)
             else Inl ValueError)
      else emit [c] (fmt None cs args))"
| "fmt (Some name) [] args = Inl ValueError"
| "fmt (Some name) (c # cs) args =
     (if c = CHR ''}'' then
        (case field_value name args of
           Inl e \<Rightarrow> Inl e
         | Inr v \<Rightarrow> emit v (fmt None cs args))
      else fmt (Some (name @ [c])) cs args)"

definition str_format :: "string \<Rightarrow> string option list \<Rightarrow> py_error + string" where
  "str_format template args = fmt None template args"

section \<open>The rule catalog\<close>

text \<open>
  A rule is the tuple \<open>(regex, bug_type, description, fix_template)\<close> of
  \<open>CodeAnalyzer.__init__\<close>; the regular expression is written in its compiled form, the
  fix template as the source has it.
\<close>

type_synonym rule = "item list \<times> bug_category \<times> string \<times> string"

text \<open>\<^verbatim>\<open>for\s+(\w+)\s+in\s+(\w+)(?!\s*:)\<close>\<close>

definition for_rule :: rule where
  "for_rule =
     ([Lit ''for'', Plus Space, Open 1, Plus Word, Close 1, Plus Space, Lit ''in'', Plus Space,
       Open 2, Plus Word, Close 2, NegLook [[Star Space, Lit '':'']]],
      SyntaxError, ''Missing colon after for loop'', ''for {0} in {1}:'')"

text \<open>\<^verbatim>\<open>if\s+(.+?)(?!\s*:)$\<close>\<close>

definition if_rule :: rule where
  "if_rule =
     ([Lit ''if'', Plus Space, Open 1, PlusLazy Dot, Close 1, NegLook [[Star Space, Lit '':'']],
       Eos],
      SyntaxError, ''Missing colon after if condition'', ''if {0}:'')"

text \<open>\<^verbatim>\<open>else(?!\s*:)\<close>\<close>

definition else_rule :: rule where
  "else_rule =
     ([Lit ''else'', NegLook [[Star Space, Lit '':'']]],
      SyntaxError, ''Missing colon after else'', ''else:'')"

text \<open>\<^verbatim>\<open>(\w+)\s*=\s*(\w+)\s*/\s*len\((\w+)\)\<close>\<close>

definition div_len_rule :: rule where
  "div_len_rule =
     ([Open 1, Plus Word, Close 1, Star Space, Lit ''='', Star Space, Open 2, Plus Word, Close 2,
       Star Space, Lit ''/'', Star Space, Lit ''len('', Open 3, Plus Word, Close 3, Lit '')''],
      LogicError, ''Potential division by zero'',
      ''{0} = {1} / len({2}) if len({2}) > 0 else 0'')"

text \<open>\<^verbatim>\<open>(\w+)\s*=\s*(\d+)\s*/\s*(\w+)\<close>\<close>

definition div_rule :: rule where
  "div_rule =
     ([Open 1, Plus Word, Close 1, Star Space, Lit ''='', Star Space, Open 2, Plus Digit, Close 2,
       Star Space, Lit ''/'', Star Space, Open 3, Plus Word, Close 3],
      LogicError, ''Potential division by zero'', ''{0} = {1} / {2} if {2} != 0 else 0'')"

text \<open>\<^verbatim>\<open>(\w+)\s*==\s*"([^"]*)"\<close>, with the template \<^verbatim>\<open>{0} == '{1}'\<close>\<close>

definition string_compare_rule :: rule where
  "string_compare_rule =
     ([Open 1, Plus Word, Close 1, Star Space, Lit ''=='', Star Space, Lit [CHR 0x22],
       Open 2, Star (NotIn [CHR 0x22]), Close 2, Lit [CHR 0x22]],
      StyleWarning, ''String comparison could use single quotes'',
      ''{0} == '' @ [CHR 0x27] @ ''{1}'' @ [CHR 0x27])"

text \<open>\<^verbatim>\<open>print\s*\(\s*([^,)]*)\s*\)\<close>, with the template \<^verbatim>\<open>print(f"{{{0}}}")\<close>\<close>

definition print_rule :: rule where
  "print_rule =
     ([Lit ''print'', Star Space, Lit ''('', Star Space, Open 1, Star (NotIn '',)''), Close 1,
       Star Space, Lit '')''],
      DeprecationWarning, ''Consider using f-strings for cleaner output'',
      ''print(f'' @ [CHR 0x22] @ ''{{{0}}}'' @ [CHR 0x22] @ '')'')"

text \<open>\<^verbatim>\<open>while\s+(.+?)(?!\s*:)$\<close>\<close>

definition while_rule :: rule where
  "while_rule =
     ([Lit ''while'', Plus Space, Open 1, PlusLazy Dot, Close 1,
       NegLook [[Star Space, Lit '':'']], Eos],
      SyntaxError, ''Missing colon after while condition'', ''while {0}:'')"

text \<open>\<^verbatim>\<open>def\s+(\w+)\s*\(([^)]*)\)(?!\s*:)\<close>\<close>

definition def_rule :: rule where
  "def_rule =
     ([Lit ''def'', Plus Space, Open 1, Plus Word, Close 1, Star Space, Lit ''('',
       Open 2, Star (NotIn '')''), Close 2, Lit '')'', NegLook [[Star Space, Lit '':'']]],
      SyntaxError, ''Missing colon after function definition'', ''def {0}({1}):'')"

text \<open>\<^verbatim>\<open>except(?!\s+\w+:|:)\<close>\<close>

definition except_rule :: rule where
  "except_rule =
     ([Lit ''except'', NegLook [[Plus Space, Plus Word, Lit '':''], [Lit '':'']]],
      SyntaxError, ''Invalid except clause'', ''except Exception:'')"

text \<open>\<^verbatim>\<open>(\w+)\s*\+=\s*(\w+)\s*\n\s*return\s+\1\<close>\<close>

definition return_rule :: rule where
  "return_rule =
     ([Open 1, Plus Word, Close 1, Star Space, Lit ''+='', Star Space, Open 2, Plus Word, Close 2,
       Star Space, Lit [newline], Star Space, Lit ''return'', Plus Space, BackRef 1],
      LogicWarning, ''Assignment before return without effect'', ''return {0} + {1}'')"

definition python_rules :: "rule list" where
  "python_rules =
     [for_rule, if_rule, else_rule, div_len_rule, div_rule, string_compare_rule, print_rule,
      while_rule, def_rule, except_rule, return_rule]"

text \<open>\<^verbatim>\<open>if\s*\(.+\)\s*([^{])\<close>\<close>

definition braces_if_rule :: rule where
  "braces_if_rule =
     ([Lit ''if'', Star Space, Lit ''('', Plus Dot, Lit '')'', Star Space,
       Open 1, One (NotIn ''{''), Close 1],
      SyntaxError, ''Missing braces in if statement'', ''if (...) {'')"

text \<open>\<^verbatim>\<open>for\s*\(.+\)\s*([^{])\<close>\<close>

definition braces_for_rule :: rule where
  "braces_for_rule =
     ([Lit ''for'', Star Space, Lit ''('', Plus Dot, Lit '')'', Star Space,
       Open 1, One (NotIn ''{''), Close 1],
      SyntaxError, ''Missing braces in for loop'', ''for (...) {'')"

text \<open>\<^verbatim>\<open>var\s+(\w+)\<close>\<close>

definition var_rule :: rule where
  "var_rule =
     ([Lit ''var'', Plus Space, Open 1, Plus Word, Close 1],
      StyleWarning, ''Using var instead of let/const'', ''const {0}'')"

definition java_rules :: "rule list" where
  "java_rules = [braces_if_rule, braces_for_rule]"

definition cpp_rules :: "rule list" where
  "cpp_rules = [braces_for_rule]"

definition javascript_rules :: "rule list" where
  "javascript_rules = [braces_if_rule, var_rule]"

text \<open>The dictionary \<open>self.bug_patterns\<close>; a language is the text of its key.\<close>

definition bug_patterns :: "string \<Rightarrow> rule list option" where
  "bug_patterns language =
     (if language = ''Python'' then Some python_rules
      else if language = ''Java'' then Some java_rules
      else if language = ''C++'' then Some cpp_rules
      else if language = ''JavaScript'' then Some javascript_rules
      else None)"

section \<open>The line scanner\<close>

text \<open>
  The inner loop of \<open>detect_bugs\<close>, over the rules, for line \<open>i\<close> with text \<open>line\<close>. A rule
  that matches appends its finding; the fix is \<open>fix_template.format(*groups)\<close> when the
  pattern has groups and the template itself otherwise. An exception of \<open>format\<close> leaves
  \<open>detect_bugs\<close>: it is the result \<open>Inl\<close>.
\<close>

fun scan_rules :: "rule list \<Rightarrow> int \<Rightarrow> string \<Rightarrow> py_error + bug list" where
  "scan_rules [] i line = Inr []"
| "scan_rules ((pattern, btype, description, fix_template) # rules) i line =
     (case re_search pattern line of
        None \<Rightarrow> scan_rules rules i line
      | Some groups \<Rightarrow>
          (case (if groups \<noteq> [] then str_format fix_template groups else Inr fix_template) of
             Inl e \<Rightarrow> Inl e
           | Inr fix \<Rightarrow>
               (case scan_rules rules i line of
                  Inl e \<Rightarrow> Inl e
                | Inr results \<Rightarrow>
                    Inr (\<lparr>bug_type = btype, bug_line = i, bug_description = description,
                          bug_original = Some line, bug_fix = fix\<rparr> # results))))"

text \<open>The outer loop \<open>for i, line in enumerate(lines, 1)\<close>.\<close>

fun scan_lines :: "rule list \<Rightarrow> int \<Rightarrow> string list \<Rightarrow> py_error + bug list" where
  "scan_lines rules i [] = Inr []"
| "scan_lines rules i (line # lines) =
     (case scan_rules rules i line of
        Inl e \<Rightarrow> Inl e
      | Inr found \<Rightarrow>
          (case scan_lines rules (i + 1) lines of
             Inl e \<Rightarrow> Inl e
           | Inr results \<Rightarrow> Inr (found @ results)))"

section \<open>The structural checker\<close>

text \<open>
  \<open>ast.parse\<close> is Python's own parser. It is a parameter of the model, \<open>parse\<close>: for a
  text it gives the nodes of the tree in the order in which \<open>ast.walk\<close> yields them, or
  the \<open>SyntaxError\<close> that \<open>ast.parse\<close> raises, or another exception that it raises
  (\<open>RecursionError\<close> on deep nesting, \<open>MemoryError\<close>, \<open>ValueError\<close> on a NUL byte in
  some versions). A node is what \<open>python_ast_check\<close> reads of it: an \<open>ast.Assign\<close> with
  its targets and line, an \<open>ast.Name\<close> with its identifier and context, an
  \<open>ast.ExceptHandler\<close> with its type (or \<open>None\<close>) and line, or any other node.
\<close>

datatype expr_context = Load | Store | Del

datatype ast_node =
    Assign "ast_node list" int
  | Name string expr_context
  | ExceptHandler "ast_node option" int
  | OtherNode

text \<open>A \<open>SyntaxError\<close> \<open>e\<close>: \<open>e.lineno\<close> and \<open>str(e)\<close>.\<close>

record syntax_error =
  lineno :: "int option"
  str :: string

datatype parse_outcome =
    Parsed "ast_node list"
  | SyntaxFailure syntax_error
  | OtherFailure py_error

type_synonym parser = "string \<Rightarrow> parse_outcome"

text \<open>The identifiers of the targets of an assignment that are \<open>ast.Name\<close> nodes.\<close>

fun target_names :: "ast_node list \<Rightarrow> string list" where
  "target_names [] = []"
| "target_names (Name ident ctx # ts) = ident # target_names ts"
| "target_names (t # ts) = target_names ts"

text \<open>The first walk: \<open>defined_vars\<close> and \<open>used_vars\<close>, as lists of the names added.\<close>

fun defined_vars :: "ast_node list \<Rightarrow> string list" where
  "defined_vars [] = []"
| "defined_vars (Assign targets ln # nodes) = target_names targets @ defined_vars nodes"
| "defined_vars (node # nodes) = defined_vars nodes"

fun used_vars :: "ast_node list \<Rightarrow> string list" where
  "used_vars [] = []"
| "used_vars (Name ident Load # nodes) = ident # used_vars nodes"
| "used_vars (node # nodes) = used_vars nodes"

definition unused_bug :: "string \<Rightarrow> int \<Rightarrow> bug" where
  "unused_bug var line_num =
     \<lparr>bug_type = StyleWarning, bug_line = line_num,
      bug_description = ''Unused variable '' @ [CHR 0x27] @ var @ [CHR 0x27],
      bug_original = None,
      bug_fix = ''# Remove or use the variable '' @ [CHR 0x27] @ var @ [CHR 0x27]\<rparr>"

text \<open>The walk for one unused variable: a finding for every target of an assignment that
  is the name \<open>var\<close>.\<close>

fun unused_sites :: "string \<Rightarrow> ast_node list \<Rightarrow> bug list" where
  "unused_sites var [] = []"
| "unused_sites var (Assign targets ln # nodes) =
     map (\<lambda>t. unused_bug var ln) (filter (\<lambda>ident. ident = var) (target_names targets))
     @ unused_sites var nodes"
| "unused_sites var (node # nodes) = unused_sites var nodes"

definition bare_except_bug :: "int \<Rightarrow> bug" where
  "bare_except_bug line_num =
     \<lparr>bug_type = LogicWarning, bug_line = line_num,
      bug_description = ''Bare except clause'',
      bug_original = None,
      bug_fix = ''except Exception as e:''\<rparr>"

fun bare_excepts :: "ast_node list \<Rightarrow> bug list" where
  "bare_excepts [] = []"
| "bare_excepts (ExceptHandler None ln # nodes) = bare_except_bug ln # bare_excepts nodes"
| "bare_excepts (node # nodes) = bare_excepts nodes"

text \<open>The finding of the handler \<open>except SyntaxError as e\<close>; its line is \<open>e.lineno or 0\<close>.\<close>

definition syntax_error_bug :: "syntax_error \<Rightarrow> bug" where
  "syntax_error_bug e =
     \<lparr>bug_type = SyntaxError,
      bug_line = (case lineno e of None \<Rightarrow> 0 | Some n \<Rightarrow> n),
      bug_description = str e,
      bug_original = None,
      bug_fix = ''# Fix the syntax error: '' @ str e\<rparr>"

text \<open>
  \<open>CodeAnalyzer.python_ast_check\<close>. The set \<open>unused = defined_vars - used_vars\<close> is read
  by \<open>for var in unused\<close> in an order that Python leaves open (it follows the hash values
  of the names): the parameter \<open>rank\<close> gives each name its place in that order.
  The handler is \<open>except SyntaxError\<close>: any other exception of \<open>ast.parse\<close> leaves
  \<open>python_ast_check\<close>, which is the result \<open>Inl\<close>.
\<close>

definition python_ast_check ::
  "parser \<Rightarrow> (string \<Rightarrow> nat) \<Rightarrow> string \<Rightarrow> py_error + bug list" where
  "python_ast_check parse rank code =
     (case parse code of
        Parsed nodes \<Rightarrow>
          (let unused = filter (\<lambda>v. v \<notin> set (used_vars nodes)) (remdups (defined_vars nodes))
           in Inr (concat (map (\<lambda>var. unused_sites var nodes) (sort_key rank unused))
                   @ bare_excepts nodes))
      | SyntaxFailure e \<Rightarrow> Inr [syntax_error_bug e]
      | OtherFailure x \<Rightarrow> Inl x)"

text \<open>The dictionary \<open>self.ast_checkers\<close>.\<close>

definition ast_checkers ::
  "parser \<Rightarrow> (string \<Rightarrow> nat) \<Rightarrow> string \<Rightarrow> (string \<Rightarrow> py_error + bug list) option" where
  "ast_checkers parse rank language =
     (if language = ''Python'' then Some (python_ast_check parse rank) else None)"

section \<open>Detection\<close>

record analysis =
  bug_count :: int
  bugs :: "bug list"

text \<open>\<open>CodeAnalyzer.detect_bugs\<close>. An exception of the scanner or of the checker leaves
  it.\<close>

definition detect_bugs ::
  "parser \<Rightarrow> (string \<Rightarrow> nat) \<Rightarrow> string \<Rightarrow> string \<Rightarrow> py_error + analysis" where
  "detect_bugs parse rank code language =
     (let lines = split_lines code;
          rules = (case bug_patterns language of None \<Rightarrow> [] | Some rs \<Rightarrow> rs)
      in case scan_lines rules 1 lines of
           Inl e \<Rightarrow> Inl e
         | Inr scanned \<Rightarrow>
             (case ast_checkers parse rank language of
                None \<Rightarrow> Inr \<lparr>bug_count = int (length scanned), bugs = scanned\<rparr>
              | Some check \<Rightarrow>
                  (case check code of
                     Inl e \<Rightarrow> Inl e
                   | Inr ast_bugs \<Rightarrow>
                       (let results = scanned @ ast_bugs
                        in Inr \<lparr>bug_count = int (length results), bugs = results\<rparr>))))"

text \<open>
  The scenario of the specification: findings at lines 2, 5 and 2 on a document of five
  lines; line 2 of the result is the fix of the second finding for line 2.
\<close>

definition five_lines :: string where
  "five_lines = ''a'' @ [newline] @ ''b'' @ [newline] @ ''c'' @ [newline] @ ''d'' @ [newline] @ ''e''"

definition fix_at :: "int \<Rightarrow> string \<Rightarrow> bug" where
  "fix_at n f = \<lparr>bug_type = SyntaxError, bug_line = n, bug_description = [],
                 bug_original = None, bug_fix = f\<rparr>"

section \<open>The findings as the specification describes them\<close>

text \<open>
  The finding of one rule on line \<open>i\<close>, when the rule matches and its fix renders:
  the template with the groups substituted by position, or the template itself when the
  pattern has no group; the original text is the line.
\<close>

fun rule_finding :: "int \<Rightarrow> string \<Rightarrow> rule \<Rightarrow> bug option" where
  "rule_finding i line (pattern, btype, description, fix_template) =
     (case re_search pattern line of
        None \<Rightarrow> None
      | Some groups \<Rightarrow>
          (case (if groups \<noteq> [] then str_format fix_template groups else Inr fix_template) of
             Inl e \<Rightarrow> None
           | Inr fix \<Rightarrow>
               Some \<lparr>bug_type = btype, bug_line = i, bug_description = description,
                     bug_original = Some line, bug_fix = fix\<rparr>))"

text \<open>All rules on one line in the order of the catalog, the lines in ascending order
  from line \<open>i\<close>.\<close>

fun scanner_findings :: "rule list \<Rightarrow> int \<Rightarrow> string list \<Rightarrow> bug list" where
  "scanner_findings rules i [] = []"
| "scanner_findings rules i (line # lines) =
     List.map_filter (rule_finding i line) rules @ scanner_findings rules (i + 1) lines"


text \<open>A rule renders when \<open>format\<close> succeeds on every tuple of groups of its pattern;
  it is malformed when \<open>format\<close> raises \<open>ValueError\<close> on every such tuple.\<close>

fun renders :: "rule \<Rightarrow> bool" where
  "renders (pattern, btype, description, fix_template) =
     (\<forall>groups. length groups = ngroups pattern \<longrightarrow> groups \<noteq> [] \<longrightarrow>
        (\<exists>fix. str_format fix_template groups = Inr fix))"

fun malformed :: "rule \<Rightarrow> bool" where
  "malformed (pattern, btype, description, fix_template) =
     (ngroups pattern \<noteq> 0 \<and> (\<forall>groups. str_format fix_template groups = Inl ValueError))"

section \<open>The documents of the scenarios\<close>

text \<open>Scenario 1: \<^verbatim>\<open>for i in range(5)\<close> and \<^verbatim>\<open>  print(i)\<close>. \<open>ast.parse\<close> raises a
  \<open>SyntaxError\<close> at line 1 for it.\<close>

definition scenario1 :: string where
  "scenario1 = ''for i in range(5)'' @ [newline] @ ''  print(i)''"

definition scenario1_error :: syntax_error where
  "scenario1_error =
     \<lparr>lineno = Some 1,
      str = ''expected '' @ [CHR 0x27] @ '':'' @ [CHR 0x27] @ '' (<unknown>, line 1)''\<rparr>"

text \<open>Scenario 2: \<^verbatim>\<open>x = 10 / y\<close>. The nodes of its tree as \<open>ast.walk\<close> yields them:
  Module, Assign, Name x (Store), BinOp, Store, Constant, Div, Name y (Load), Load.\<close>

definition scenario2 :: string where
  "scenario2 = ''x = 10 / y''"

definition scenario2_nodes :: "ast_node list" where
  "scenario2_nodes =
     [OtherNode, Assign [Name ''x'' Store] 1, Name ''x'' Store, OtherNode, OtherNode,
      OtherNode, OtherNode, Name ''y'' Load, OtherNode]"

text \<open>Scenario 3: \<^verbatim>\<open>unused = 5\<close>, with the nodes Module, Assign, Name unused (Store),
  Constant, Store.\<close>

definition scenario3 :: string where
  "scenario3 = ''unused = 5''"

definition scenario3_nodes :: "ast_node list" where
  "scenario3_nodes =
     [OtherNode, Assign [Name ''unused'' Store] 1, Name ''unused'' Store, OtherNode, OtherNode]"

text \<open>A loop that has its colon: \<^verbatim>\<open>for i in range(5): pass\<close>, with the nodes Module, For,
  Name i (Store), Call, Pass, Store, Name range (Load), Constant, Load.\<close>

definition for_pass :: string where
  "for_pass = ''for i in range(5): pass''"

definition for_pass_nodes :: "ast_node list" where
  "for_pass_nodes =
     [OtherNode, OtherNode, Name ''i'' Store, OtherNode, OtherNode, OtherNode,
      Name ''range'' Load, OtherNode, OtherNode]"

text \<open>The fixed loop \<^verbatim>\<open>for i in range:\<close> has no body: \<open>ast.parse\<close> raises a
  \<open>SyntaxError\<close> at line 1 for it.\<close>

definition for_fixed_error :: syntax_error where
  "for_fixed_error =
     \<lparr>lineno = Some 1,
      str = ''expected an indented block after '' @ [CHR 0x27] @ ''for'' @ [CHR 0x27]
            @ '' statement on line 1 (<unknown>, line 1)''\<rparr>"

text \<open>A document of three lines, \<^verbatim>\<open>x = 1\<close>, \<^verbatim>\<open>unused = 5\<close> and \<^verbatim>\<open>print(x)\<close>, with
  the nodes Module, Assign (line 1), Assign (line 2), Expr, Name x (Store), Constant,
  Name unused (Store), Constant, Call, Store, Store, Name print (Load), Name x (Load),
  Load, Load.\<close>

definition three_lines :: string where
  "three_lines = ''x = 1'' @ [newline] @ ''unused = 5'' @ [newline] @ ''print(x)''"

definition three_lines_nodes :: "ast_node list" where
  "three_lines_nodes =
     [OtherNode, Assign [Name ''x'' Store] 1, Assign [Name ''unused'' Store] 2, OtherNode,
      Name ''x'' Store, OtherNode, Name ''unused'' Store, OtherNode, OtherNode, OtherNode,
      OtherNode, Name ''print'' Load, Name ''x'' Load, OtherNode, OtherNode]"

text \<open>An assignment to a tuple: \<^verbatim>\<open>a, c = 3, 4\<close>. The one target of its \<open>ast.Assign\<close> is
  an \<open>ast.Tuple\<close>; the nodes are Module, Assign, Tuple (Store), Tuple (Load),
  Name a (Store), Name c (Store), Store, Constant, Constant, Load, Store, Store.\<close>

definition tuple_assign :: string where
  "tuple_assign = ''a, c = 3, 4''"

definition tuple_assign_nodes :: "ast_node list" where
  "tuple_assign_nodes =
     [OtherNode, Assign [OtherNode] 1, OtherNode, OtherNode, Name ''a'' Store,
      Name ''c'' Store, OtherNode, OtherNode, OtherNode, OtherNode, OtherNode, OtherNode]"

text \<open>A deep expression: \<open>x\<close> followed by 20000 times \<open>.a\<close>. \<open>ast.parse\<close> raises
  \<open>RecursionError\<close> for it.\<close>

definition deep_document :: string where
  "deep_document = ''x'' @ concat (replicate 20000 ''.a'')"

text \<open>
  A parser that agrees with \<open>ast.parse\<close> (CPython 3.11) on the documents above (for any
  other text it gives the tree of an empty module), and a rank that is the same for every
  name: the instances of the two parameters at which the theorems are evaluated.
\<close>

definition scenario_parse :: parser where
  "scenario_parse code =
     (if code = scenario1 then SyntaxFailure scenario1_error
      else if code = scenario2 then Parsed scenario2_nodes
      else if code = scenario3 then Parsed scenario3_nodes
      else if code = for_pass then Parsed for_pass_nodes
      else if code = ''for i in range:'' then SyntaxFailure for_fixed_error
      else if code = three_lines then Parsed three_lines_nodes
      else if code = tuple_assign then Parsed tuple_assign_nodes
      else if code = deep_document then OtherFailure RecursionError
      else Parsed [OtherNode])"

definition same_rank :: "string \<Rightarrow> nat" where
  "same_rank v = 0"

section \<open>The parser of the scenarios\<close>

lemma deep_document_second: "hd (tl deep_document) = CHR ''.''"
proof -
  have "(20000::nat) = Suc 19999" by simp
  then have unfolded: "deep_document = ''x'' @ ''.a'' @ concat (replicate 19999 ''.a'')"
    unfolding deep_document_def by (simp only: replicate_Suc concat.simps)
  show ?thesis by (subst unfolded) simp
qed

lemma not_deep_document: "hd (tl code) \<noteq> CHR ''.'' \<Longrightarrow> deep_document \<noteq> code"
  using deep_document_second by auto

lemma scenario_parse_scenario1: "scenario_parse scenario1 = SyntaxFailure scenario1_error"
  by (simp add: scenario_parse_def)

lemma scenario_parse_scenario2: "scenario_parse scenario2 = Parsed scenario2_nodes"
  by (simp add: scenario_parse_def scenario1_def scenario2_def)


lemma scenario_parse_for_pass: "scenario_parse for_pass = Parsed for_pass_nodes"
  by (simp add: scenario_parse_def scenario1_def scenario2_def scenario3_def for_pass_def)

lemma scenario_parse_for_fixed:
  "scenario_parse ''for i in range:'' = SyntaxFailure for_fixed_error"
  by (simp add: scenario_parse_def scenario1_def scenario2_def scenario3_def for_pass_def)



lemma scenario_parse_deep: "scenario_parse deep_document = OtherFailure RecursionError"
proof -
  have "deep_document \<noteq> scenario1" "deep_document \<noteq> scenario2" "deep_document \<noteq> scenario3"
    "deep_document \<noteq> for_pass" "deep_document \<noteq> ''for i in range:''"
    "deep_document \<noteq> three_lines" "deep_document \<noteq> tuple_assign"
    by (rule not_deep_document,
        simp add: scenario1_def scenario2_def scenario3_def for_pass_def three_lines_def
          tuple_assign_def)+
  then show ?thesis
    by (simp only: scenario_parse_def if_False if_True refl)
qed

section \<open>Lines and text\<close>

lemma split_lines_not_Nil: "split_lines s \<noteq> []"
  by (induction s) (auto split: list.splits)

lemma join_split_lines: "join_lines (split_lines s) = s"
proof (induction s)
  case Nil
  show ?case by simp
next
  case (Cons c cs)
  obtain l ls where sp: "split_lines cs = l # ls"
    using split_lines_not_Nil [of cs] by (cases "split_lines cs") auto
  show ?case
  proof (cases "c = newline")
    case True
    with Cons sp show ?thesis by simp
  next
    case False
    with Cons sp show ?thesis by (cases ls) auto
  qed
qed

lemma split_lines_append_line:
  "newline \<notin> set l \<Longrightarrow> split_lines (l @ newline # s) = l # split_lines s"
  by (induction l) auto

lemma split_lines_single: "newline \<notin> set l \<Longrightarrow> split_lines l = [l]"
  by (induction l) auto

lemma split_join_lines:
  "ls \<noteq> [] \<Longrightarrow> \<forall>l \<in> set ls. newline \<notin> set l \<Longrightarrow> split_lines (join_lines ls) = ls"
proof (induction ls rule: join_lines.induct)
  case 1
  then show ?case by simp
next
  case (2 l)
  then show ?case by (simp add: split_lines_single)
next
  case (3 l m ls)
  then show ?case by (simp add: split_lines_append_line)
qed

lemma split_lines_no_newline: "l \<in> set (split_lines s) \<Longrightarrow> newline \<notin> set l"
proof (induction s arbitrary: l)
  case Nil
  then show ?case by simp
next
  case (Cons c cs)
  obtain k ks where sp: "split_lines cs = k # ks"
    using split_lines_not_Nil [of cs] by (cases "split_lines cs") auto
  show ?case
  proof (cases "c = newline")
    case True
    with Cons show ?thesis by auto
  next
    case False
    with Cons.prems sp have "l = c # k \<or> l \<in> set ks" by auto
    then show ?thesis
    proof
      assume "l = c # k"
      moreover have "newline \<notin> set k" using Cons.IH [of k] sp by simp
      ultimately show ?thesis using False by auto
    next
      assume "l \<in> set ks"
      then show ?thesis using Cons.IH [of l] sp by simp
    qed
  qed
qed

lemma split_join_update:
  assumes "newline \<notin> set f"
  shows "split_lines (join_lines ((split_lines s)[i := f])) = (split_lines s)[i := f]"
proof (rule split_join_lines)
  show "(split_lines s)[i := f] \<noteq> []"
    using split_lines_not_Nil [of s] by simp
  show "\<forall>l \<in> set ((split_lines s)[i := f]). newline \<notin> set l"
  proof
    fix l
    assume "l \<in> set ((split_lines s)[i := f])"
    then have "l = f \<or> l \<in> set (split_lines s)"
      using set_update_subset_insert [of "split_lines s" i f] by auto
    then show "newline \<notin> set l"
      using assms split_lines_no_newline by auto
  qed
qed

section \<open>Rectifying one finding\<close>

text \<open>
  Claim C2. With \<open>D = split_lines code\<close> the lines of the document: when
  \<open>1 \<le> line \<le> length D\<close>, \<open>rectify_bug\<close> returns the text of \<open>D\<close> with line \<open>line\<close>
  replaced by the fix and every other line as it was, and the replaced line; the lines of
  the returned text are exactly these when the fix is one line (it holds no newline).
  When \<open>line < 1\<close> or \<open>line > length D\<close> it returns the text unchanged and \<open>None\<close>.
  \<open>rectify_bug\<close> is a total function: no input makes it raise.
\<close>

theorem rectify_bug_replaces_line:
  "(1 \<le> bug_line b \<and> bug_line b \<le> int (length (split_lines code)) \<longrightarrow>
      rectify_bug code b =
        (join_lines ((split_lines code)[nat (bug_line b - 1) := bug_fix b]),
         Some (split_lines code ! nat (bug_line b - 1)))
      \<and> (newline \<notin> set (bug_fix b) \<longrightarrow>
           length (split_lines (fst (rectify_bug code b))) = length (split_lines code)
           \<and> (\<forall>i < length (split_lines code).
                 split_lines (fst (rectify_bug code b)) ! i =
                   (if int i + 1 = bug_line b then bug_fix b else split_lines code ! i))))
   \<and> (bug_line b < 1 \<or> int (length (split_lines code)) < bug_line b \<longrightarrow>
        rectify_bug code b = (code, None))"
proof (intro conjI impI)
  assume r: "1 \<le> bug_line b \<and> bug_line b \<le> int (length (split_lines code))"
  then show eq: "rectify_bug code b =
        (join_lines ((split_lines code)[nat (bug_line b - 1) := bug_fix b]),
         Some (split_lines code ! nat (bug_line b - 1)))"
    by (simp add: rectify_bug_def Let_def)
  assume n: "newline \<notin> set (bug_fix b)"
  have sp: "split_lines (fst (rectify_bug code b)) =
        (split_lines code)[nat (bug_line b - 1) := bug_fix b]"
    using eq n by (simp add: split_join_update)
  show "length (split_lines (fst (rectify_bug code b))) = length (split_lines code)"
    using sp by simp
  show "\<forall>i < length (split_lines code).
          split_lines (fst (rectify_bug code b)) ! i =
            (if int i + 1 = bug_line b then bug_fix b else split_lines code ! i)"
  proof (intro allI impI)
    fix i
    assume i: "i < length (split_lines code)"
    have "int i + 1 = bug_line b \<longleftrightarrow> nat (bug_line b - 1) = i"
      using r by auto
    then show "split_lines (fst (rectify_bug code b)) ! i =
            (if int i + 1 = bug_line b then bug_fix b else split_lines code ! i)"
      using sp i by (auto simp: nth_list_update)
  qed
next
  assume "bug_line b < 1 \<or> int (length (split_lines code)) < bug_line b"
  then show "rectify_bug code b = (code, None)"
    by (auto simp: rectify_bug_def Let_def)
qed

theorem rectify_bug_replaces_line_witness:
  "rectify_bug (''ab'' @ [CHR 0x0A] @ ''cd'')
     \<lparr>bug_type = SyntaxError, bug_line = 2, bug_description = ''d'',
      bug_original = None, bug_fix = ''XY''\<rparr>
     = (''ab'' @ [CHR 0x0A] @ ''XY'', Some ''cd'')
   \<and> split_lines (''ab'' @ [CHR 0x0A] @ ''XY'') = [''ab'', ''XY'']
   \<and> rectify_bug (''ab'' @ [CHR 0x0A] @ ''cd'')
     \<lparr>bug_type = SyntaxError, bug_line = 3, bug_description = ''d'',
      bug_original = None, bug_fix = ''XY''\<rparr>
     = (''ab'' @ [CHR 0x0A] @ ''cd'', None)"
proof -
  let ?code = "''ab'' @ [CHR 0x0A] @ ''cd''"
  let ?b2 = "\<lparr>bug_type = SyntaxError, bug_line = 2, bug_description = ''d'',
      bug_original = None, bug_fix = ''XY''\<rparr>"
  let ?b3 = "\<lparr>bug_type = SyntaxError, bug_line = 3, bug_description = ''d'',
      bug_original = None, bug_fix = ''XY''\<rparr>"
  have sp: "split_lines ?code = [''ab'', ''cd'']"
    by (simp add: newline_def)
  have in_range: "1 \<le> bug_line ?b2 \<and> bug_line ?b2 \<le> int (length (split_lines ?code))"
    using sp by simp
  have one_line: "newline \<notin> set (bug_fix ?b2)"
    by (simp add: newline_def)
  have out_of_range: "bug_line ?b3 < 1 \<or> int (length (split_lines ?code)) < bug_line ?b3"
    using sp by simp
  from rectify_bug_replaces_line [of ?b2 ?code] in_range one_line
  have "rectify_bug ?code ?b2 =
          (join_lines ((split_lines ?code)[nat (bug_line ?b2 - 1) := bug_fix ?b2]),
           Some (split_lines ?code ! nat (bug_line ?b2 - 1)))"
    and "\<forall>i < length (split_lines ?code).
           split_lines (fst (rectify_bug ?code ?b2)) ! i =
             (if int i + 1 = bug_line ?b2 then bug_fix ?b2 else split_lines ?code ! i)"
    by blast+
  then have a: "rectify_bug ?code ?b2 = (''ab'' @ [CHR 0x0A] @ ''XY'', Some ''cd'')"
    using sp by (simp add: newline_def)
  have b: "split_lines (''ab'' @ [CHR 0x0A] @ ''XY'') = [''ab'', ''XY'']"
    by (simp add: newline_def)
  from rectify_bug_replaces_line [of ?b3 ?code] out_of_range
  have c: "rectify_bug ?code ?b3 = (?code, None)"
    by blast
  from a b c show ?thesis by simp
qed

section \<open>Rectifying all findings\<close>

lemma apply_loop_length: "length (apply_loop bs ls) = length ls"
  by (induction bs arbitrary: ls) (simp_all add: Let_def)

lemma apply_loop_nth:
  "i < length ls \<Longrightarrow> apply_loop bs ls ! i = last_fix_wins bs ls i"
proof (induction bs arbitrary: ls)
  case Nil
  then show ?case by (simp add: last_fix_wins_def)
next
  case (Cons b bs)
  define ls' where "ls' = (if 0 \<le> bug_line b - 1 \<and> bug_line b - 1 < int (length ls)
              then ls[nat (bug_line b - 1) := bug_fix b] else ls)"
  have len: "i < length ls'" using Cons.prems by (simp add: ls'_def)
  have step: "apply_loop (b # bs) ls = apply_loop bs ls'"
    by (simp add: ls'_def Let_def)
  have ih: "apply_loop bs ls' ! i = last_fix_wins bs ls' i"
    using Cons.IH [OF len] .
  show ?case
  proof (cases "bug_line b = int i + 1")
    case True
    then have nth: "ls' ! i = bug_fix b" using Cons.prems by (simp add: ls'_def)
    have "last_fix_wins bs ls' i = last_fix_wins (b # bs) ls i"
      using True nth
      by (cases "filter (\<lambda>b. bug_line b = int i + 1) bs") (simp_all add: last_fix_wins_def)
    with step ih show ?thesis by simp
  next
    case False
    then have "nat (bug_line b - 1) \<noteq> i \<or> \<not> 0 \<le> bug_line b - 1" by auto
    then have nth: "ls' ! i = ls ! i" by (auto simp: ls'_def)
    have "last_fix_wins bs ls' i = last_fix_wins (b # bs) ls i"
      using False nth by (simp add: last_fix_wins_def split: list.splits)
    with step ih show ?thesis by simp
  qed
qed

lemma sorted_reverse_stable:
  "filter (\<lambda>x. key x = k) (sorted_reverse key xs) = filter (\<lambda>x. key x = k) xs"
proof -
  have "filter (\<lambda>x. key x = k) (sorted_reverse key xs)
      = rev (filter (\<lambda>x. key x = k) (sort_key key (rev xs)))"
    by (simp add: sorted_reverse_def rev_filter)
  also have "\<dots> = rev (filter (\<lambda>x. key x = k) (rev xs))"
    by (simp only: sort_key_stable)
  also have "\<dots> = filter (\<lambda>x. key x = k) xs"
    by (simp add: rev_filter)
  finally show ?thesis .
qed

lemma sorted_reverse_descending:
  "sorted_wrt (\<lambda>a b. key b \<le> key a) (sorted_reverse key xs)"
proof -
  have "sorted (map key (sort_key key (rev xs)))"
    by (rule sorted_sort_key)
  then have "sorted_wrt (\<lambda>a b. key a \<le> key b) (sort_key key (rev xs))"
    by (simp add: sorted_wrt_map)
  then show ?thesis
    by (simp add: sorted_reverse_def sorted_wrt_rev)
qed

lemma mset_sorted_reverse: "mset (sorted_reverse key xs) = mset xs"
  by (simp add: sorted_reverse_def)

lemma last_fix_wins_sorted_reverse:
  "last_fix_wins (sorted_reverse bug_line findings) ls i = last_fix_wins findings ls i"
  by (simp add: last_fix_wins_def sorted_reverse_stable)

lemma apply_loop_closed_form:
  "apply_loop bs ls = map (last_fix_wins bs ls) [0..<length ls]"
  by (rule nth_equalityI) (simp_all add: apply_loop_length apply_loop_nth)

lemma last_fix_wins_no_newline:
  assumes "\<forall>b \<in> set findings. newline \<notin> set (bug_fix b)" and "i < length (split_lines code)"
  shows "newline \<notin> set (last_fix_wins findings (split_lines code) i)"
proof (cases "filter (\<lambda>b. bug_line b = int i + 1) findings")
  case Nil
  then show ?thesis
    using assms(2) split_lines_no_newline [of "split_lines code ! i" code]
    by (simp add: last_fix_wins_def)
next
  case (Cons f fs)
  have "last (f # fs) \<in> set (filter (\<lambda>b. bug_line b = int i + 1) findings)"
    unfolding Cons by (rule last_in_set) simp
  then have "last (f # fs) \<in> set findings" by simp
  with assms(1) Cons show ?thesis
    by (simp add: last_fix_wins_def)
qed

text \<open>
  Claim C1. \<open>apply_fixes\<close> reads the findings in the order \<open>sorted_reverse bug_line findings\<close>:
  the same findings, by line number descending, findings of one line in their order in
  the input. Each is a same-line replacement on the lines of the original text, so the
  number of lines never changes and line \<open>i + 1\<close> of the result is the fix of the last
  finding of the input list for that line (\<open>last_fix_wins\<close>), or the original line when
  there is none. The lines of the returned text are these lines when every fix is one line.
\<close>

theorem apply_fixes_last_wins:
  "sorted_wrt (\<lambda>a b. bug_line b \<le> bug_line a) (sorted_reverse bug_line findings)
   \<and> mset (sorted_reverse bug_line findings) = mset findings
   \<and> (\<forall>k. filter (\<lambda>b. bug_line b = k) (sorted_reverse bug_line findings)
             = filter (\<lambda>b. bug_line b = k) findings)
   \<and> apply_fixes code findings
        = join_lines (apply_loop (sorted_reverse bug_line findings) (split_lines code))
   \<and> apply_loop (sorted_reverse bug_line findings) (split_lines code)
        = map (last_fix_wins findings (split_lines code)) [0..<length (split_lines code)]
   \<and> ((\<forall>b \<in> set findings. newline \<notin> set (bug_fix b)) \<longrightarrow>
        split_lines (apply_fixes code findings)
          = map (last_fix_wins findings (split_lines code)) [0..<length (split_lines code)])"
proof (intro conjI impI allI)
  show "sorted_wrt (\<lambda>a b. bug_line b \<le> bug_line a) (sorted_reverse bug_line findings)"
    by (rule sorted_reverse_descending)
  show "mset (sorted_reverse bug_line findings) = mset findings"
    by (rule mset_sorted_reverse)
  show "filter (\<lambda>b. bug_line b = k) (sorted_reverse bug_line findings)
          = filter (\<lambda>b. bug_line b = k) findings" for k
    by (rule sorted_reverse_stable)
  show "apply_fixes code findings
          = join_lines (apply_loop (sorted_reverse bug_line findings) (split_lines code))"
    by (simp add: apply_fixes_def Let_def)
  show closed: "apply_loop (sorted_reverse bug_line findings) (split_lines code)
          = map (last_fix_wins findings (split_lines code)) [0..<length (split_lines code)]"
    by (simp add: apply_loop_closed_form last_fix_wins_sorted_reverse)
  assume one_line: "\<forall>b \<in> set findings. newline \<notin> set (bug_fix b)"
  let ?ls = "map (last_fix_wins findings (split_lines code)) [0..<length (split_lines code)]"
  have "?ls \<noteq> []"
    using split_lines_not_Nil [of code] by simp
  moreover have "\<forall>l \<in> set ?ls. newline \<notin> set l"
    using last_fix_wins_no_newline [OF one_line] by auto
  ultimately have "split_lines (join_lines ?ls) = ?ls"
    by (rule split_join_lines)
  then show "split_lines (apply_fixes code findings) = ?ls"
    using closed by (simp add: apply_fixes_def Let_def)
qed

lemma apply_fixes_scenario:
  "apply_fixes five_lines [fix_at 2 ''first'', fix_at 5 ''five'', fix_at 2 ''second'']
     = ''a'' @ [newline] @ ''second'' @ [newline] @ ''c'' @ [newline] @ ''d'' @ [newline] @ ''five''"
  by (simp add: apply_fixes_def sorted_reverse_def five_lines_def fix_at_def newline_def)

theorem apply_fixes_last_wins_witness:
  "split_lines (apply_fixes five_lines
      [fix_at 2 ''first'', fix_at 5 ''five'', fix_at 2 ''second''])
     = [''a'', ''second'', ''c'', ''d'', ''five'']
   \<and> sorted_reverse bug_line [fix_at 2 ''first'', fix_at 5 ''five'', fix_at 2 ''second'']
     = [fix_at 5 ''five'', fix_at 2 ''first'', fix_at 2 ''second'']"
proof -
  let ?findings = "[fix_at 2 ''first'', fix_at 5 ''five'', fix_at 2 ''second'']"
  have sp: "split_lines five_lines = [''a'', ''b'', ''c'', ''d'', ''e'']"
    by (simp add: five_lines_def newline_def)
  have one_line: "\<forall>b \<in> set ?findings. newline \<notin> set (bug_fix b)"
    by (simp add: fix_at_def newline_def)
  have upt: "[0..<5] = [0, 1, 2, 3, 4]"
    by (simp add: upt_rec)
  from apply_fixes_last_wins [of ?findings five_lines] one_line
  have "split_lines (apply_fixes five_lines ?findings)
          = map (last_fix_wins ?findings (split_lines five_lines)) [0..<length (split_lines five_lines)]"
    by blast
  then have a: "split_lines (apply_fixes five_lines ?findings) = [''a'', ''second'', ''c'', ''d'', ''five'']"
    by (simp add: sp upt last_fix_wins_def fix_at_def)
  have b: "sorted_reverse bug_line ?findings = [fix_at 5 ''five'', fix_at 2 ''first'', fix_at 2 ''second'']"
    by (simp add: sorted_reverse_def fix_at_def)
  from a b show ?thesis by simp
qed

section \<open>The scanner returns the findings of the specification\<close>

lemma scan_lines_no_rules: "scan_lines [] i lines = Inr []"
  by (induction lines arbitrary: i) simp_all

lemma scan_rules_findings:
  "scan_rules rules i line = Inr found \<Longrightarrow> found = List.map_filter (rule_finding i line) rules"
proof (induction rules arbitrary: found)
  case Nil
  then show ?case by (simp add: map_filter_simps)
next
  case (Cons r rules)
  obtain pattern btype description fix_template
    where r: "r = (pattern, btype, description, fix_template)"
    by (cases r) auto
  show ?case
  proof (cases "re_search pattern line")
    case None
    with Cons r show ?thesis by (simp add: map_filter_simps)
  next
    case (Some groups)
    with Cons.prems r obtain fx rest
      where fx: "(if groups \<noteq> [] then str_format fix_template groups else Inr fix_template) = Inr fx"
        and rest: "scan_rules rules i line = Inr rest"
        and found: "found = \<lparr>bug_type = btype, bug_line = i, bug_description = description,
                       bug_original = Some line, bug_fix = fx\<rparr> # rest"
      by (auto split: sum.splits)
    from Cons.IH [OF rest] have "rest = List.map_filter (rule_finding i line) rules" .
    with Some r fx found show ?thesis
      by (simp add: map_filter_simps)
  qed
qed

lemma scan_lines_findings:
  "scan_lines rules i lines = Inr found \<Longrightarrow> found = scanner_findings rules i lines"
proof (induction lines arbitrary: i found)
  case Nil
  then show ?case by simp
next
  case (Cons line lines)
  from Cons.prems obtain here rest
    where here: "scan_rules rules i line = Inr here"
      and rest: "scan_lines rules (i + 1) lines = Inr rest"
      and found: "found = here @ rest"
    by (auto split: sum.splits)
  from scan_rules_findings [OF here] Cons.IH [OF rest] found show ?case
    by simp
qed

text \<open>
  Whenever \<open>detect_bugs\<close> returns, its findings are those of the scanner (every rule that
  matches, in the order of the catalog, line after line) followed by those of the
  structural checker of the language, in the order in which it found them.
\<close>

lemma detect_bugs_order:
  assumes "detect_bugs parse rank code language = Inr r"
  shows "\<exists>ast_bugs.
           (if language = ''Python'' then python_ast_check parse rank code = Inr ast_bugs
            else ast_bugs = [])
           \<and> bugs r =
               scanner_findings (case bug_patterns language of None \<Rightarrow> [] | Some rs \<Rightarrow> rs) 1
                 (split_lines code)
               @ ast_bugs"
proof -
  let ?rules = "case bug_patterns language of None \<Rightarrow> [] | Some rs \<Rightarrow> rs"
  from assms obtain scanned
    where scanned: "scan_lines ?rules 1 (split_lines code) = Inr scanned"
    by (auto simp: detect_bugs_def Let_def split: sum.splits)
  note spec = scan_lines_findings [OF scanned]
  show ?thesis
  proof (cases "language = ''Python''")
    case True
    with assms scanned obtain ast_bugs
      where "python_ast_check parse rank code = Inr ast_bugs" and "bugs r = scanned @ ast_bugs"
      by (auto simp: detect_bugs_def Let_def ast_checkers_def split: sum.splits)
    with True spec show ?thesis by auto
  next
    case False
    with assms scanned have "bugs r = scanned"
      by (auto simp: detect_bugs_def Let_def ast_checkers_def)
    with False spec show ?thesis by auto
  qed
qed

section \<open>The rules of Python always render\<close>

lemma re_search_length:
  "re_search pattern line = Some groups \<Longrightarrow> length groups = ngroups pattern"
  by (auto simp: re_search_def split: option.splits)

lemma scan_rules_returns:
  "\<forall>r \<in> set rules. renders r \<Longrightarrow> \<exists>found. scan_rules rules i line = Inr found"
proof (induction rules)
  case Nil
  show ?case by simp
next
  case (Cons r rules)
  obtain pattern btype description fix_template
    where r: "r = (pattern, btype, description, fix_template)"
    by (cases r) auto
  from Cons obtain rest where rest: "scan_rules rules i line = Inr rest"
    by auto
  show ?case
  proof (cases "re_search pattern line")
    case None
    with r rest show ?thesis by simp
  next
    case (Some groups)
    have "\<exists>fix. (if groups \<noteq> [] then str_format fix_template groups else Inr fix_template) = Inr fix"
      using Cons.prems r re_search_length [OF Some] by auto
    with Some r rest show ?thesis by auto
  qed
qed

lemma scan_lines_returns:
  "\<forall>r \<in> set rules. renders r \<Longrightarrow> \<exists>found. scan_lines rules i lines = Inr found"
proof (induction lines arbitrary: i)
  case Nil
  show ?case by simp
next
  case (Cons line lines)
  from scan_rules_returns [OF Cons.prems] obtain here
    where "scan_rules rules i line = Inr here" by blast
  moreover from Cons.IH [OF Cons.prems] obtain rest
    where "scan_lines rules (i + 1) lines = Inr rest" by blast
  ultimately show ?case by simp
qed

lemma one_group: "length groups = Suc 0 \<Longrightarrow> \<exists>a. groups = [a]"
  by (cases groups) auto

lemma two_groups: "length groups = Suc (Suc 0) \<Longrightarrow> \<exists>a b. groups = [a, b]"
  by (cases groups) (auto dest: one_group)

lemma three_groups: "length groups = Suc (Suc (Suc 0)) \<Longrightarrow> \<exists>a b c. groups = [a, b, c]"
  by (cases groups) (auto dest: two_groups)

lemmas format_simps = str_format_def emit_def field_value_def is_digit_def ngroups_def

lemma renders_for_rule: "renders for_rule"
  by (auto simp: for_rule_def format_simps dest!: two_groups)

lemma renders_if_rule: "renders if_rule"
  by (auto simp: if_rule_def format_simps dest!: one_group)

lemma renders_else_rule: "renders else_rule"
  by (simp add: else_rule_def format_simps)

lemma renders_div_len_rule: "renders div_len_rule"
  by (auto simp: div_len_rule_def format_simps dest!: three_groups)

lemma renders_div_rule: "renders div_rule"
  by (auto simp: div_rule_def format_simps dest!: three_groups)

lemma renders_string_compare_rule: "renders string_compare_rule"
  by (auto simp: string_compare_rule_def format_simps dest!: two_groups)

lemma renders_print_rule: "renders print_rule"
  by (auto simp: print_rule_def format_simps dest!: one_group)

lemma renders_while_rule: "renders while_rule"
  by (auto simp: while_rule_def format_simps dest!: one_group)

lemma renders_def_rule: "renders def_rule"
  by (auto simp: def_rule_def format_simps dest!: two_groups)

lemma renders_except_rule: "renders except_rule"
  by (simp add: except_rule_def format_simps)

lemma renders_return_rule: "renders return_rule"
  by (auto simp: return_rule_def format_simps dest!: two_groups)

lemma python_rules_render: "\<forall>r \<in> set python_rules. renders r"
  by (simp add: python_rules_def renders_for_rule renders_if_rule renders_else_rule
      renders_div_len_rule renders_div_rule renders_string_compare_rule renders_print_rule
      renders_while_rule renders_def_rule renders_except_rule renders_return_rule)

lemma python_scan_returns: "\<exists>found. scan_lines python_rules i lines = Inr found"
  using python_rules_render by (rule scan_lines_returns)

section \<open>The only exception of the scanner\<close>

lemma scan_rules_error:
  "\<forall>r \<in> set rules. renders r \<or> malformed r \<Longrightarrow> scan_rules rules i line = Inl e \<Longrightarrow>
     e = ValueError"
proof (induction rules)
  case Nil
  then show ?case by simp
next
  case (Cons r rules)
  obtain pattern btype description fix_template
    where r: "r = (pattern, btype, description, fix_template)"
    by (cases r) auto
  have ih: "scan_rules rules i line = Inl e \<Longrightarrow> e = ValueError"
    using Cons by simp
  show ?case
  proof (cases "re_search pattern line")
    case None
    with Cons.prems r ih show ?thesis by simp
  next
    case (Some groups)
    note len = re_search_length [OF Some]
    from Cons.prems(1) r have "renders r \<or> malformed r" by simp
    then show ?thesis
    proof
      assume "renders r"
      with r len have "\<exists>fx. (if groups \<noteq> [] then str_format fix_template groups
          else Inr fix_template) = Inr fx"
        by auto
      with Cons.prems(2) r Some ih show ?thesis
        by (auto split: sum.splits)
    next
      assume "malformed r"
      with r len have "groups \<noteq> []" and "str_format fix_template groups = Inl ValueError"
        by auto
      with Cons.prems(2) r Some show ?thesis
        by simp
    qed
  qed
qed

lemma scan_lines_error:
  "\<forall>r \<in> set rules. renders r \<or> malformed r \<Longrightarrow> scan_lines rules i lines = Inl e \<Longrightarrow>
     e = ValueError"
proof (induction lines arbitrary: i)
  case Nil
  then show ?case by simp
next
  case (Cons line lines)
  show ?case
  proof (cases "scan_rules rules i line")
    case (Inl e')
    with Cons.prems scan_rules_error [OF Cons.prems(1) Inl] show ?thesis
      by simp
  next
    case (Inr here)
    with Cons.prems have "scan_lines rules (i + 1) lines = Inl e"
      by (auto split: sum.splits)
    from Cons.IH [OF Cons.prems(1) this] show ?thesis .
  qed
qed

lemma malformed_braces_if_rule: "malformed braces_if_rule"
  by (simp add: braces_if_rule_def ngroups_def str_format_def emit_def)

lemma malformed_braces_for_rule: "malformed braces_for_rule"
  by (simp add: braces_for_rule_def ngroups_def str_format_def emit_def)

lemma renders_var_rule: "renders var_rule"
  by (auto simp: var_rule_def format_simps dest!: one_group)

lemma catalog_rules:
  "\<forall>r \<in> set (case bug_patterns language of None \<Rightarrow> [] | Some rs \<Rightarrow> rs).
      renders r \<or> malformed r"
proof -
  have python: "\<forall>r \<in> set python_rules. renders r \<or> malformed r"
    using python_rules_render by blast
  have java: "\<forall>r \<in> set java_rules. renders r \<or> malformed r"
    by (simp add: java_rules_def malformed_braces_if_rule malformed_braces_for_rule)
  have cpp: "\<forall>r \<in> set cpp_rules. renders r \<or> malformed r"
    by (simp add: cpp_rules_def malformed_braces_for_rule)
  have javascript: "\<forall>r \<in> set javascript_rules. renders r \<or> malformed r"
    by (simp add: javascript_rules_def malformed_braces_if_rule renders_var_rule)
  show ?thesis
  proof (cases "bug_patterns language")
    case None
    then show ?thesis by simp
  next
    case (Some rs)
    then have "rs = python_rules \<or> rs = java_rules \<or> rs = cpp_rules \<or> rs = javascript_rules"
      by (auto simp: bug_patterns_def split: if_splits)
    with python java cpp javascript have "\<forall>r \<in> set rs. renders r \<or> malformed r"
      by blast
    with Some show ?thesis
      by (simp only: option.case)
  qed
qed

text \<open>
  Every template of the catalog is inside the model of \<open>format\<close>: the scanner returns, or
  it raises the \<open>ValueError\<close> of a template for missing braces. The only other exception
  that leaves \<open>detect_bugs\<close> is one that \<open>ast.parse\<close> raises and that is not a
  \<open>SyntaxError\<close>.
\<close>

lemma python_ast_check_error:
  "python_ast_check parse rank code = Inl e \<longleftrightarrow> parse code = OtherFailure e"
  by (simp add: python_ast_check_def Let_def split: parse_outcome.splits)

lemma detect_bugs_scan_error:
  assumes "scan_lines (case bug_patterns language of None \<Rightarrow> [] | Some rs \<Rightarrow> rs) 1
             (split_lines code) = Inl e"
  shows "e = ValueError" and "detect_bugs parse rank code language = Inl ValueError"
proof -
  from catalog_rules [of language] assms show e: "e = ValueError"
    by (rule scan_lines_error)
  from assms e show "detect_bugs parse rank code language = Inl ValueError"
    by (simp add: detect_bugs_def)
qed

lemma detect_bugs_error:
  assumes "detect_bugs parse rank code language = Inl e"
  shows "e = ValueError \<or> (language = ''Python'' \<and> parse code = OtherFailure e)"
proof -
  let ?rules = "case bug_patterns language of None \<Rightarrow> [] | Some rs \<Rightarrow> rs"
  show ?thesis
  proof (cases "scan_lines ?rules 1 (split_lines code)")
    case (Inl e')
    from detect_bugs_scan_error(2) [OF Inl, of parse rank] assms show ?thesis
      by simp
  next
    case (Inr scanned)
    with assms have "language = ''Python'' \<and> python_ast_check parse rank code = Inl e"
      by (auto simp: detect_bugs_def Let_def ast_checkers_def split: if_splits sum.splits)
    then show ?thesis
      by (simp add: python_ast_check_error)
  qed
qed

lemma detect_bugs_returns:
  assumes "language \<notin> {''Java'', ''C++'', ''JavaScript''}"
    and "\<forall>x. parse code \<noteq> OtherFailure x"
  shows "\<exists>r. detect_bugs parse rank code language = Inr r"
proof -
  let ?rules = "case bug_patterns language of None \<Rightarrow> [] | Some rs \<Rightarrow> rs"
  have "?rules = python_rules \<or> ?rules = []"
    using assms(1) by (simp add: bug_patterns_def)
  then obtain found where found: "scan_lines ?rules 1 (split_lines code) = Inr found"
    using python_scan_returns scan_lines_no_rules by metis
  obtain ast_bugs where "python_ast_check parse rank code = Inr ast_bugs"
    using assms(2) python_ast_check_error [of parse rank code]
    by (cases "python_ast_check parse rank code") auto
  with found show ?thesis
    by (auto simp: detect_bugs_def Let_def ast_checkers_def)
qed

section \<open>A malformed template raises wherever its rule matches\<close>

lemma scan_rules_raises:
  "r \<in> set rules \<Longrightarrow> malformed r \<Longrightarrow> re_search (fst r) line \<noteq> None \<Longrightarrow>
     \<exists>e. scan_rules rules i line = Inl e"
proof (induction rules)
  case Nil
  then show ?case by simp
next
  case (Cons q rules)
  obtain pattern btype description fix_template
    where q: "q = (pattern, btype, description, fix_template)"
    by (cases q) auto
  show ?case
  proof (cases "q = r")
    case True
    with Cons.prems q obtain groups where groups: "re_search pattern line = Some groups"
      by auto
    from re_search_length [OF groups] Cons.prems(2) True q
    have "groups \<noteq> []" and "str_format fix_template groups = Inl ValueError"
      by auto
    with q groups show ?thesis by simp
  next
    case False
    with Cons obtain e where "scan_rules rules i line = Inl e"
      by auto
    with q show ?thesis
      by (auto split: option.splits sum.splits)
  qed
qed

lemma scan_lines_raises:
  "r \<in> set rules \<Longrightarrow> malformed r \<Longrightarrow> line \<in> set lines \<Longrightarrow>
     re_search (fst r) line \<noteq> None \<Longrightarrow> \<exists>e. scan_lines rules i lines = Inl e"
proof (induction lines arbitrary: i)
  case Nil
  then show ?case by simp
next
  case (Cons l lines)
  show ?case
  proof (cases "scan_rules rules i l")
    case (Inl e)
    then show ?thesis by simp
  next
    case (Inr here)
    with scan_rules_raises [OF Cons.prems(1,2), of l i] Cons.prems(3,4)
    have "line \<in> set lines"
      by auto
    from Cons.IH [OF Cons.prems(1,2) this Cons.prems(4), of "i + 1"] Inr
    show ?thesis by auto
  qed
qed

text \<open>
  On every document that has a line on which a rule for missing braces matches,
  \<open>detect_bugs\<close> raises \<open>ValueError\<close> and returns nothing.
\<close>

lemma detect_bugs_raises:
  assumes "bug_patterns language = Some rules" and "r \<in> set rules" and "malformed r"
    and "line \<in> set (split_lines code)" and "re_search (fst r) line \<noteq> None"
  shows "detect_bugs parse rank code language = Inl ValueError"
proof -
  from scan_lines_raises [OF assms(2,3,4,5)] obtain e
    where e: "scan_lines rules 1 (split_lines code) = Inl e"
    by blast
  with assms(1) show ?thesis
    using detect_bugs_scan_error(2) [of language code e parse rank] by simp
qed

section \<open>Detection: count, unknown languages, parse failures\<close>

text \<open>
  Claim C9. In every result of \<open>detect_bugs\<close> the count is the length of the findings:
  the result is built as \<open>{'bug_count': len(results), 'bugs': results}\<close>.
\<close>

theorem detect_bugs_count:
  "detect_bugs parse rank code language = Inr r \<Longrightarrow> bug_count r = int (length (bugs r))"
  by (auto simp: detect_bugs_def Let_def split: sum.splits option.splits)

theorem detect_bugs_count_witness:
  "detect_bugs scenario_parse same_rank scenario2 ''Python''
     = Inr \<lparr>bug_count = 2,
            bugs = [\<lparr>bug_type = LogicError, bug_line = 1,
                      bug_description = ''Potential division by zero'',
                      bug_original = Some ''x = 10 / y'',
                      bug_fix = ''x = 10 / y if y != 0 else 0''\<rparr>,
                    unused_bug ''x'' 1]\<rparr>
   \<and> bug_count \<lparr>bug_count = 2,
            bugs = [\<lparr>bug_type = LogicError, bug_line = 1,
                      bug_description = ''Potential division by zero'',
                      bug_original = Some ''x = 10 / y'',
                      bug_fix = ''x = 10 / y if y != 0 else 0''\<rparr>,
                    unused_bug ''x'' 1]\<rparr>
       = int (length [\<lparr>bug_type = LogicError, bug_line = 1,
                      bug_description = ''Potential division by zero'',
                      bug_original = Some ''x = 10 / y'',
                      bug_fix = ''x = 10 / y if y != 0 else 0''\<rparr>,
                    unused_bug ''x'' 1])"
proof -
  let ?r = "\<lparr>bug_count = 2,
            bugs = [\<lparr>bug_type = LogicError, bug_line = 1,
                      bug_description = ''Potential division by zero'',
                      bug_original = Some ''x = 10 / y'',
                      bug_fix = ''x = 10 / y if y != 0 else 0''\<rparr>,
                    unused_bug ''x'' 1]\<rparr>"
  have run: "detect_bugs scenario_parse same_rank scenario2 ''Python'' = Inr ?r"
    by code_simp
  from detect_bugs_count [OF run] have "bug_count ?r = int (length (bugs ?r))" .
  with run show ?thesis by simp
qed

text \<open>
  Claim C10. A language that is not a key of \<open>bug_patterns\<close> has the empty rule list
  (\<open>bug_patterns.get(language, [])\<close>) and no checker: \<open>detect_bugs\<close> returns the count 0 and
  no finding, whatever the document.
\<close>

theorem detect_bugs_unknown_language:
  "language \<notin> {''Python'', ''Java'', ''C++'', ''JavaScript''} \<Longrightarrow>
     bug_patterns language = None
     \<and> ast_checkers parse rank language = None
     \<and> detect_bugs parse rank code language = Inr \<lparr>bug_count = 0, bugs = []\<rparr>"
  by (simp add: detect_bugs_def bug_patterns_def ast_checkers_def scan_lines_no_rules)

theorem detect_bugs_unknown_language_witness:
  "detect_bugs scenario_parse same_rank scenario2 ''Ruby''
     = Inr \<lparr>bug_count = 0, bugs = []\<rparr>"
proof -
  have "''Ruby'' \<notin> {''Python'', ''Java'', ''C++'', ''JavaScript''}"
    by simp
  from detect_bugs_unknown_language [OF this] show ?thesis
    by blast
qed

lemma detect_bugs_syntax_failure:
  assumes "parse code = SyntaxFailure e"
  shows "\<exists>scanned.
           scan_lines python_rules 1 (split_lines code) = Inr scanned
           \<and> detect_bugs parse rank code ''Python''
               = Inr \<lparr>bug_count = int (length scanned) + 1,
                      bugs = scanned @ [syntax_error_bug e]\<rparr>"
proof -
  obtain scanned where scanned: "scan_lines python_rules 1 (split_lines code) = Inr scanned"
    using python_scan_returns by blast
  have "python_ast_check parse rank code = Inr [syntax_error_bug e]"
    using assms by (simp add: python_ast_check_def)
  with scanned show ?thesis
    by (simp add: detect_bugs_def bug_patterns_def ast_checkers_def)
qed

lemma detect_bugs_other_failure:
  assumes "parse code = OtherFailure x"
  shows "python_ast_check parse rank code = Inl x"
    and "detect_bugs parse rank code ''Python'' = Inl x"
proof -
  show check: "python_ast_check parse rank code = Inl x"
    using assms by (simp add: python_ast_check_def)
  obtain scanned where "scan_lines python_rules 1 (split_lines code) = Inr scanned"
    using python_scan_returns by blast
  with check show "detect_bugs parse rank code ''Python'' = Inl x"
    by (simp add: detect_bugs_def bug_patterns_def ast_checkers_def)
qed

text \<open>
  Claim C8, as the code has it. The handler of \<open>python_ast_check\<close> is
  \<open>except SyntaxError\<close>. When \<open>ast.parse\<close> raises a \<open>SyntaxError\<close> \<open>e\<close>, the checker
  returns exactly one finding: category \<open>SyntaxError\<close>, line \<open>e.lineno or 0\<close>, description
  \<open>str(e)\<close>; no finding of the unused-variable or bare-except scans is in it, nothing is
  raised, and \<open>detect_bugs\<close> returns the scanner's findings followed by this one (the
  scanner returns on every document with the rules of Python). When \<open>ast.parse\<close> raises
  any other exception, it is not caught: it leaves \<open>python_ast_check\<close> and \<open>detect_bugs\<close>,
  and no finding is returned.
\<close>

theorem parse_failure_outcomes:
  "(parse code = SyntaxFailure e \<longrightarrow>
      python_ast_check parse rank code
        = Inr [\<lparr>bug_type = SyntaxError,
                 bug_line = (case lineno e of None \<Rightarrow> 0 | Some n \<Rightarrow> n),
                 bug_description = str e,
                 bug_original = None,
                 bug_fix = ''# Fix the syntax error: '' @ str e\<rparr>]
      \<and> (\<exists>scanned.
            scan_lines python_rules 1 (split_lines code) = Inr scanned
            \<and> detect_bugs parse rank code ''Python''
                = Inr \<lparr>bug_count = int (length scanned) + 1,
                       bugs = scanned @
                         [\<lparr>bug_type = SyntaxError,
                            bug_line = (case lineno e of None \<Rightarrow> 0 | Some n \<Rightarrow> n),
                            bug_description = str e,
                            bug_original = None,
                            bug_fix = ''# Fix the syntax error: '' @ str e\<rparr>]\<rparr>))
   \<and> (parse code = OtherFailure x \<longrightarrow>
        python_ast_check parse rank code = Inl x
        \<and> detect_bugs parse rank code ''Python'' = Inl x)"
proof (intro conjI impI)
  assume failure: "parse code = SyntaxFailure e"
  then show "python_ast_check parse rank code
        = Inr [\<lparr>bug_type = SyntaxError,
                 bug_line = (case lineno e of None \<Rightarrow> 0 | Some n \<Rightarrow> n),
                 bug_description = str e,
                 bug_original = None,
                 bug_fix = ''# Fix the syntax error: '' @ str e\<rparr>]"
    by (simp add: python_ast_check_def syntax_error_bug_def)
  from detect_bugs_syntax_failure [of parse code e rank, OF failure]
  show "\<exists>scanned.
            scan_lines python_rules 1 (split_lines code) = Inr scanned
            \<and> detect_bugs parse rank code ''Python''
                = Inr \<lparr>bug_count = int (length scanned) + 1,
                       bugs = scanned @
                         [\<lparr>bug_type = SyntaxError,
                            bug_line = (case lineno e of None \<Rightarrow> 0 | Some n \<Rightarrow> n),
                            bug_description = str e,
                            bug_original = None,
                            bug_fix = ''# Fix the syntax error: '' @ str e\<rparr>]\<rparr>"
    by (simp add: syntax_error_bug_def)
next
  assume other: "parse code = OtherFailure x"
  from detect_bugs_other_failure [where parse = parse and code = code and x = x
      and rank = rank, OF other]
  show "python_ast_check parse rank code = Inl x"
    and "detect_bugs parse rank code ''Python'' = Inl x"
    by simp_all
qed

theorem parse_failure_outcomes_witness:
  "python_ast_check scenario_parse same_rank scenario1
     = Inr [\<lparr>bug_type = SyntaxError, bug_line = 1,
              bug_description = str scenario1_error,
              bug_original = None,
              bug_fix = ''# Fix the syntax error: '' @ str scenario1_error\<rparr>]
   \<and> bug_count (projr (detect_bugs scenario_parse same_rank scenario1 ''Python'')) = 3
   \<and> python_ast_check scenario_parse same_rank deep_document = Inl RecursionError
   \<and> detect_bugs scenario_parse same_rank deep_document ''Python'' = Inl RecursionError"
proof -
  have scan: "scan_lines python_rules 1 (split_lines scenario1)
      = Inr [\<lparr>bug_type = SyntaxError, bug_line = 1,
               bug_description = ''Missing colon after for loop'',
               bug_original = Some ''for i in range(5)'',
               bug_fix = ''for i in range:''\<rparr>,
             \<lparr>bug_type = DeprecationWarning, bug_line = 2,
               bug_description = ''Consider using f-strings for cleaner output'',
               bug_original = Some ''  print(i)'',
               bug_fix = ''print(f'' @ [CHR 0x22] @ ''{i}'' @ [CHR 0x22] @ '')''\<rparr>]"
    by code_simp
  have line: "lineno scenario1_error = Some 1"
    by (simp add: scenario1_error_def)
  from parse_failure_outcomes [where parse = scenario_parse and code = scenario1
      and e = scenario1_error and rank = same_rank]
    scenario_parse_scenario1 scan line
  have first: "python_ast_check scenario_parse same_rank scenario1
     = Inr [\<lparr>bug_type = SyntaxError, bug_line = 1,
              bug_description = str scenario1_error,
              bug_original = None,
              bug_fix = ''# Fix the syntax error: '' @ str scenario1_error\<rparr>]"
    and second: "bug_count (projr (detect_bugs scenario_parse same_rank scenario1 ''Python'')) = 3"
    by auto
  from parse_failure_outcomes [where parse = scenario_parse and code = deep_document
      and x = RecursionError and rank = same_rank]
    scenario_parse_deep
  have "python_ast_check scenario_parse same_rank deep_document = Inl RecursionError"
    and "detect_bugs scenario_parse same_rank deep_document ''Python'' = Inl RecursionError"
    by simp_all
  with first second show ?thesis by simp
qed

text \<open>
  The claim as it was stated fails on the deep document: its parse fails with
  \<open>RecursionError\<close>, the checker returns no finding, and the exception leaves
  \<open>detect_bugs\<close>.
\<close>

theorem parse_failure_propagates:
  "scenario_parse deep_document = OtherFailure RecursionError
   \<and> python_ast_check scenario_parse same_rank deep_document = Inl RecursionError
   \<and> detect_bugs scenario_parse same_rank deep_document ''Python'' = Inl RecursionError"
  using scenario_parse_deep
    detect_bugs_other_failure [where parse = scenario_parse and code = deep_document
      and x = RecursionError and rank = same_rank]
  by simp

section \<open>A template that is not a format string\<close>

text \<open>
  Claim C6. The rules of Java, C++ and JavaScript for missing braces have a pattern with
  one group and the template \<^verbatim>\<open>if (...) {\<close> (or \<^verbatim>\<open>for (...) {\<close>), which ends in a single
  brace: \<open>fix_template.format(*groups)\<close> raises \<open>ValueError\<close>. On the Java line
  \<^verbatim>\<open>if (x) y\<close> the rule matches and \<open>detect_bugs\<close> raises: no finding is returned. Where
  \<open>detect_bugs\<close> returns, the order and the content of its findings are those of the
  claim (\<open>detect_bugs_order\<close>).
\<close>

theorem braces_template_raises:
  "re_search (fst braces_if_rule) ''if (x) y'' = Some [Some ''y'']
   \<and> str_format ''if (...) {'' [Some ''y''] = Inl ValueError
   \<and> detect_bugs parse rank ''if (x) y'' ''Java'' = Inl ValueError"
proof -
  have search: "re_search (fst braces_if_rule) ''if (x) y'' = Some [Some ''y'']"
    by code_simp
  have render: "str_format ''if (...) {'' [Some ''y''] = Inl ValueError"
    by code_simp
  have scan: "scan_lines java_rules 1 (split_lines ''if (x) y'') = Inl ValueError"
    by code_simp
  then have "detect_bugs parse rank ''if (x) y'' ''Java'' = Inl ValueError"
    by (simp add: detect_bugs_def bug_patterns_def)
  with search render show ?thesis by simp
qed

section \<open>Scenario 1: a loop without its colon\<close>

lemma scenario1_scan:
  "scan_lines python_rules 1 (split_lines scenario1)
     = Inr [\<lparr>bug_type = SyntaxError, bug_line = 1,
              bug_description = ''Missing colon after for loop'',
              bug_original = Some ''for i in range(5)'',
              bug_fix = ''for i in range:''\<rparr>,
            \<lparr>bug_type = DeprecationWarning, bug_line = 2,
              bug_description = ''Consider using f-strings for cleaner output'',
              bug_original = Some ''  print(i)'',
              bug_fix = ''print(f'' @ [CHR 0x22] @ ''{i}'' @ [CHR 0x22] @ '')''\<rparr>]"
  by code_simp

text \<open>
  Claim C4, as the code has it. On the document of scenario 1 \<open>detect_bugs\<close> returns three
  findings, not one: the finding of the rule for a loop without colon on line 1, the
  finding of the rule for \<open>print\<close> on line 2 with the fix \<^verbatim>\<open>print(f"{i}")\<close>, and the one
  finding of the structural checker for the \<open>SyntaxError\<close> of \<open>ast.parse\<close>. The fix of
  the first finding is left open here.
\<close>

theorem scenario1_three_findings:
  "parse scenario1 = SyntaxFailure e \<Longrightarrow>
     \<exists>fix1. detect_bugs parse rank scenario1 ''Python''
       = Inr \<lparr>bug_count = 3,
              bugs = [\<lparr>bug_type = SyntaxError, bug_line = 1,
                        bug_description = ''Missing colon after for loop'',
                        bug_original = Some ''for i in range(5)'',
                        bug_fix = fix1\<rparr>,
                      \<lparr>bug_type = DeprecationWarning, bug_line = 2,
                        bug_description = ''Consider using f-strings for cleaner output'',
                        bug_original = Some ''  print(i)'',
                        bug_fix = ''print(f'' @ [CHR 0x22] @ ''{i}'' @ [CHR 0x22] @ '')''\<rparr>,
                      syntax_error_bug e]\<rparr>"
proof -
  assume "parse scenario1 = SyntaxFailure e"
  then have "python_ast_check parse rank scenario1 = Inr [syntax_error_bug e]"
    by (simp add: python_ast_check_def)
  then have "detect_bugs parse rank scenario1 ''Python''
       = Inr \<lparr>bug_count = 3,
              bugs = [\<lparr>bug_type = SyntaxError, bug_line = 1,
                        bug_description = ''Missing colon after for loop'',
                        bug_original = Some ''for i in range(5)'',
                        bug_fix = ''for i in range:''\<rparr>,
                      \<lparr>bug_type = DeprecationWarning, bug_line = 2,
                        bug_description = ''Consider using f-strings for cleaner output'',
                        bug_original = Some ''  print(i)'',
                        bug_fix = ''print(f'' @ [CHR 0x22] @ ''{i}'' @ [CHR 0x22] @ '')''\<rparr>,
                      syntax_error_bug e]\<rparr>"
    using scenario1_scan by (simp add: detect_bugs_def bug_patterns_def ast_checkers_def)
  then show ?thesis by blast
qed

theorem scenario1_three_findings_witness:
  "\<exists>fix1. detect_bugs scenario_parse same_rank scenario1 ''Python''
       = Inr \<lparr>bug_count = 3,
              bugs = [\<lparr>bug_type = SyntaxError, bug_line = 1,
                        bug_description = ''Missing colon after for loop'',
                        bug_original = Some ''for i in range(5)'',
                        bug_fix = fix1\<rparr>,
                      \<lparr>bug_type = DeprecationWarning, bug_line = 2,
                        bug_description = ''Consider using f-strings for cleaner output'',
                        bug_original = Some ''  print(i)'',
                        bug_fix = ''print(f'' @ [CHR 0x22] @ ''{i}'' @ [CHR 0x22] @ '')''\<rparr>,
                      syntax_error_bug scenario1_error]\<rparr>"
proof -
  from scenario1_three_findings [of scenario_parse scenario1_error same_rank,
      OF scenario_parse_scenario1]
  show ?thesis .
qed

text \<open>The claim as it was stated fails on this document: the findings are three, and the
  fix of the first is \<^verbatim>\<open>for i in range:\<close>, not \<^verbatim>\<open>for i in range(5):\<close>.\<close>

theorem scenario1_not_one_finding:
  "length (bugs (projr (detect_bugs scenario_parse same_rank scenario1 ''Python''))) \<noteq> 1
   \<and> detect_bugs scenario_parse same_rank scenario1 ''Python''
       = Inr \<lparr>bug_count = 3,
              bugs = [\<lparr>bug_type = SyntaxError, bug_line = 1,
                        bug_description = ''Missing colon after for loop'',
                        bug_original = Some ''for i in range(5)'',
                        bug_fix = ''for i in range:''\<rparr>,
                      \<lparr>bug_type = DeprecationWarning, bug_line = 2,
                        bug_description = ''Consider using f-strings for cleaner output'',
                        bug_original = Some ''  print(i)'',
                        bug_fix = ''print(f'' @ [CHR 0x22] @ ''{i}'' @ [CHR 0x22] @ '')''\<rparr>,
                      syntax_error_bug scenario1_error]\<rparr>"
proof -
  have "python_ast_check scenario_parse same_rank scenario1
          = Inr [syntax_error_bug scenario1_error]"
    by (simp add: python_ast_check_def scenario_parse_scenario1)
  then have run: "detect_bugs scenario_parse same_rank scenario1 ''Python''
       = Inr \<lparr>bug_count = 3,
              bugs = [\<lparr>bug_type = SyntaxError, bug_line = 1,
                        bug_description = ''Missing colon after for loop'',
                        bug_original = Some ''for i in range(5)'',
                        bug_fix = ''for i in range:''\<rparr>,
                      \<lparr>bug_type = DeprecationWarning, bug_line = 2,
                        bug_description = ''Consider using f-strings for cleaner output'',
                        bug_original = Some ''  print(i)'',
                        bug_fix = ''print(f'' @ [CHR 0x22] @ ''{i}'' @ [CHR 0x22] @ '')''\<rparr>,
                      syntax_error_bug scenario1_error]\<rparr>"
    using scenario1_scan by (simp add: detect_bugs_def bug_patterns_def ast_checkers_def)
  then show ?thesis by simp
qed

section \<open>Scenario 2: a division\<close>

lemma scenario2_scan:
  "scan_lines python_rules 1 (split_lines scenario2)
     = Inr [\<lparr>bug_type = LogicError, bug_line = 1,
              bug_description = ''Potential division by zero'',
              bug_original = Some ''x = 10 / y'',
              bug_fix = ''x = 10 / y if y != 0 else 0''\<rparr>]"
  by code_simp

lemma scenario2_unused:
  "filter (\<lambda>v. v \<notin> set (used_vars scenario2_nodes)) (remdups (defined_vars scenario2_nodes))
     = [''x'']"
  by code_simp

lemma scenario2_check:
  "parse scenario2 = Parsed scenario2_nodes \<Longrightarrow>
     python_ast_check parse rank scenario2 = Inr [unused_bug ''x'' 1]"
  by (simp add: python_ast_check_def scenario2_unused) (simp add: scenario2_nodes_def)

text \<open>
  Claim C5, as the code has it. On the document \<^verbatim>\<open>x = 10 / y\<close> \<open>detect_bugs\<close> returns two
  findings: the \<open>LogicError\<close> of line 1 with the fix \<^verbatim>\<open>x = 10 / y if y != 0 else 0\<close>, and
  after it the \<open>StyleWarning\<close> of the structural checker for \<open>x\<close>, which is assigned and
  never read.
\<close>

theorem scenario2_two_findings:
  "parse scenario2 = Parsed scenario2_nodes \<Longrightarrow>
     detect_bugs parse rank scenario2 ''Python''
       = Inr \<lparr>bug_count = 2,
              bugs = [\<lparr>bug_type = LogicError, bug_line = 1,
                        bug_description = ''Potential division by zero'',
                        bug_original = Some ''x = 10 / y'',
                        bug_fix = ''x = 10 / y if y != 0 else 0''\<rparr>,
                      \<lparr>bug_type = StyleWarning, bug_line = 1,
                        bug_description = ''Unused variable '' @ [CHR 0x27] @ ''x'' @ [CHR 0x27],
                        bug_original = None,
                        bug_fix = ''# Remove or use the variable '' @ [CHR 0x27] @ ''x''
                                    @ [CHR 0x27]\<rparr>]\<rparr>"
  using scenario2_scan
  by (simp add: detect_bugs_def bug_patterns_def ast_checkers_def scenario2_check unused_bug_def)

theorem scenario2_two_findings_witness:
  "detect_bugs scenario_parse same_rank scenario2 ''Python''
       = Inr \<lparr>bug_count = 2,
              bugs = [\<lparr>bug_type = LogicError, bug_line = 1,
                        bug_description = ''Potential division by zero'',
                        bug_original = Some ''x = 10 / y'',
                        bug_fix = ''x = 10 / y if y != 0 else 0''\<rparr>,
                      \<lparr>bug_type = StyleWarning, bug_line = 1,
                        bug_description = ''Unused variable '' @ [CHR 0x27] @ ''x'' @ [CHR 0x27],
                        bug_original = None,
                        bug_fix = ''# Remove or use the variable '' @ [CHR 0x27] @ ''x''
                                    @ [CHR 0x27]\<rparr>]\<rparr>"
proof -
  from scenario2_two_findings [of scenario_parse same_rank, OF scenario_parse_scenario2]
  show ?thesis .
qed

text \<open>The claim as it was stated fails on this document: the findings are two.\<close>

theorem scenario2_not_one_finding:
  "length (bugs (projr (detect_bugs scenario_parse same_rank scenario2 ''Python''))) = 2
   \<and> length (bugs (projr (detect_bugs scenario_parse same_rank scenario2 ''Python''))) \<noteq> 1"
proof -
  have "detect_bugs scenario_parse same_rank scenario2 ''Python''
       = Inr \<lparr>bug_count = 2,
              bugs = [\<lparr>bug_type = LogicError, bug_line = 1,
                        bug_description = ''Potential division by zero'',
                        bug_original = Some ''x = 10 / y'',
                        bug_fix = ''x = 10 / y if y != 0 else 0''\<rparr>,
                      unused_bug ''x'' 1]\<rparr>"
    using scenario2_scan
    by (simp add: detect_bugs_def bug_patterns_def ast_checkers_def scenario2_check
        scenario_parse_scenario2)
  then show ?thesis by simp
qed

section \<open>The rule for a loop without colon fires on its own fix\<close>

lemma for_pass_scan:
  "scan_lines python_rules 1 (split_lines for_pass)
     = Inr [\<lparr>bug_type = SyntaxError, bug_line = 1,
              bug_description = ''Missing colon after for loop'',
              bug_original = Some ''for i in range(5): pass'',
              bug_fix = ''for i in range:''\<rparr>]"
  by code_simp

lemma for_pass_fixed:
  "apply_fixes for_pass
     [\<lparr>bug_type = SyntaxError, bug_line = 1,
       bug_description = ''Missing colon after for loop'',
       bug_original = Some ''for i in range(5): pass'',
       bug_fix = ''for i in range:''\<rparr>] = ''for i in range:''"
  by code_simp

lemma for_fixed_scan:
  "scan_lines python_rules 1 (split_lines ''for i in range:'')
     = Inr [\<lparr>bug_type = SyntaxError, bug_line = 1,
              bug_description = ''Missing colon after for loop'',
              bug_original = Some ''for i in range:'',
              bug_fix = ''for i in rang:''\<rparr>]"
  by code_simp

lemma for_pass_check:
  "parse for_pass = Parsed for_pass_nodes \<Longrightarrow> python_ast_check parse rank for_pass = Inr []"
  by (simp add: python_ast_check_def for_pass_nodes_def)

text \<open>
  Claim C3. The rule \<^verbatim>\<open>for\s+(\w+)\s+in\s+(\w+)(?!\s*:)\<close> matches the line
  \<^verbatim>\<open>for i in range(5): pass\<close>, which has its colon, and renders the fix
  \<^verbatim>\<open>for i in range:\<close>. That is the only finding, so \<open>apply_fixes\<close> leaves the document
  \<^verbatim>\<open>for i in range:\<close>. The rule matches this line again (the group gives back its last
  letter, and the lookahead then sees \<open>e\<close> and not the colon): the analysis of the fixed
  document reports line 1 with the category \<open>SyntaxError\<close> again, from the same rule.
\<close>

theorem for_rule_fires_again:
  "parse for_pass = Parsed for_pass_nodes \<Longrightarrow>
     detect_bugs parse rank for_pass ''Python''
       = Inr \<lparr>bug_count = 1,
              bugs = [\<lparr>bug_type = SyntaxError, bug_line = 1,
                        bug_description = ''Missing colon after for loop'',
                        bug_original = Some ''for i in range(5): pass'',
                        bug_fix = ''for i in range:''\<rparr>]\<rparr>
     \<and> apply_fixes for_pass
           [\<lparr>bug_type = SyntaxError, bug_line = 1,
             bug_description = ''Missing colon after for loop'',
             bug_original = Some ''for i in range(5): pass'',
             bug_fix = ''for i in range:''\<rparr>] = ''for i in range:''
     \<and> re_search (fst for_rule) ''for i in range:'' = Some [Some ''i'', Some ''rang'']
     \<and> detect_bugs parse rank ''for i in range:'' ''Python''
         = (case python_ast_check parse rank ''for i in range:'' of
              Inl x \<Rightarrow> Inl x
            | Inr ast_bugs \<Rightarrow>
                Inr \<lparr>bug_count = 1 + int (length ast_bugs),
                     bugs = \<lparr>bug_type = SyntaxError, bug_line = 1,
                              bug_description = ''Missing colon after for loop'',
                              bug_original = Some ''for i in range:'',
                              bug_fix = ''for i in rang:''\<rparr>
                            # ast_bugs\<rparr>)"
proof -
  assume tree: "parse for_pass = Parsed for_pass_nodes"
  have first: "detect_bugs parse rank for_pass ''Python''
       = Inr \<lparr>bug_count = 1,
              bugs = [\<lparr>bug_type = SyntaxError, bug_line = 1,
                        bug_description = ''Missing colon after for loop'',
                        bug_original = Some ''for i in range(5): pass'',
                        bug_fix = ''for i in range:''\<rparr>]\<rparr>"
    using for_pass_scan for_pass_check [of parse rank, OF tree]
    by (simp add: detect_bugs_def bug_patterns_def ast_checkers_def)
  have again: "re_search (fst for_rule) ''for i in range:'' = Some [Some ''i'', Some ''rang'']"
    by code_simp
  have second: "detect_bugs parse rank ''for i in range:'' ''Python''
         = (case python_ast_check parse rank ''for i in range:'' of
              Inl x \<Rightarrow> Inl x
            | Inr ast_bugs \<Rightarrow>
                Inr \<lparr>bug_count = 1 + int (length ast_bugs),
                     bugs = \<lparr>bug_type = SyntaxError, bug_line = 1,
                              bug_description = ''Missing colon after for loop'',
                              bug_original = Some ''for i in range:'',
                              bug_fix = ''for i in rang:''\<rparr>
                            # ast_bugs\<rparr>)"
    using for_fixed_scan
    by (simp add: detect_bugs_def bug_patterns_def ast_checkers_def split: sum.splits)
  from first for_pass_fixed again second show ?thesis by simp
qed

theorem for_rule_fires_again_witness:
  "detect_bugs scenario_parse same_rank for_pass ''Python''
       = Inr \<lparr>bug_count = 1,
              bugs = [\<lparr>bug_type = SyntaxError, bug_line = 1,
                        bug_description = ''Missing colon after for loop'',
                        bug_original = Some ''for i in range(5): pass'',
                        bug_fix = ''for i in range:''\<rparr>]\<rparr>
   \<and> detect_bugs scenario_parse same_rank ''for i in range:'' ''Python''
       = Inr \<lparr>bug_count = 2,
              bugs = [\<lparr>bug_type = SyntaxError, bug_line = 1,
                        bug_description = ''Missing colon after for loop'',
                        bug_original = Some ''for i in range:'',
                        bug_fix = ''for i in rang:''\<rparr>,
                      syntax_error_bug for_fixed_error]\<rparr>"
proof -
  have "python_ast_check scenario_parse same_rank ''for i in range:''
          = Inr [syntax_error_bug for_fixed_error]"
    by (simp add: python_ast_check_def scenario_parse_for_fixed)
  with for_rule_fires_again [of scenario_parse same_rank, OF scenario_parse_for_pass]
  show ?thesis by simp
qed

section \<open>Unused variables\<close>














end
